theory Spec2Isabelle
  imports Complex_Main "HOL-Library.Word"
begin

section \<open>Flash Guardian: the FlashDetector class of the content script\<close>

text \<open>
  A shallow embedding of the class \<open>FlashDetector\<close>: the two metric functions
  \<open>calculateLuminance\<close> and \<open>calculateRedSaturation\<close>, the frame handler
  \<open>analyzeFrame\<close>, \<open>triggerWarning\<close>, and the methods \<open>resetDetectionState\<close>,
  \<open>start\<close>, \<open>stop\<close> and \<open>resetWarning\<close>. Mutation of \<open>this\<close> is explicit state passing;
  the custom event dispatched by \<open>triggerWarning\<close> is a returned value.
\<close>

subsection \<open>JavaScript numbers\<close>

text \<open>
  The metrics are JavaScript numbers: IEEE 754 binary64. A finite number is the real it
  denotes, and every operation that can round returns \<open>binary64\<close> of the exact result:
  the nearest number with a 53-bit significand, ties to the even significand, with
  subnormals below \<open>2 powr -1022\<close>. A decimal literal is the \<open>binary64\<close> of its value.
  Overflow to an infinity is not modelled: the metrics and their differences and quotients
  are far below \<open>2 powr 1024\<close>.
\<close>

definition roundToEven :: "real \<Rightarrow> int" where
  "roundToEven y =
     (let f = \<lfloor>y\<rfloor>; d = y - of_int f
      in if d < 1 / 2 then f else if d > 1 / 2 then f + 1 else if even f then f else f + 1)"

definition binary64 :: "real \<Rightarrow> real" where
  "binary64 x =
     (if x = 0 then 0
      else let e = max \<lfloor>log 2 \<bar>x\<bar>\<rfloor> (- 1022);
               u = 2 powr (of_int (e - 52))
           in of_int (roundToEven (x / u)) * u)"

text \<open>
  The special values are modelled, because the code divides by a quantity that can be
  zero: \<open>0 / 0\<close> is \<open>NaN\<close> and \<open>x / 0\<close> is an infinity. Every comparison with \<open>NaN\<close> is false.
  The sign of zero is not modelled: a zero divisor counts as \<open>+0\<close>.
\<close>

datatype number = Num real | PosInfinity | NegInfinity | NaN

fun js_lt :: "number \<Rightarrow> number \<Rightarrow> bool" where
  "js_lt NaN _ = False"
| "js_lt _ NaN = False"
| "js_lt (Num a) (Num b) = (a < b)"
| "js_lt PosInfinity _ = False"
| "js_lt _ PosInfinity = True"
| "js_lt NegInfinity NegInfinity = False"
| "js_lt NegInfinity _ = True"
| "js_lt _ NegInfinity = False"

definition js_gt :: "number \<Rightarrow> number \<Rightarrow> bool" where
  "js_gt a b = js_lt b a"

fun js_sub :: "number \<Rightarrow> number \<Rightarrow> number" where
  "js_sub NaN _ = NaN"
| "js_sub _ NaN = NaN"
| "js_sub (Num a) (Num b) = Num (binary64 (a - b))"
| "js_sub PosInfinity PosInfinity = NaN"
| "js_sub NegInfinity NegInfinity = NaN"
| "js_sub PosInfinity _ = PosInfinity"
| "js_sub NegInfinity _ = NegInfinity"
| "js_sub _ PosInfinity = NegInfinity"
| "js_sub _ NegInfinity = PosInfinity"

fun js_abs :: "number \<Rightarrow> number" where
  "js_abs (Num a) = Num \<bar>a\<bar>"
| "js_abs PosInfinity = PosInfinity"
| "js_abs NegInfinity = PosInfinity"
| "js_abs NaN = NaN"

fun js_max :: "number \<Rightarrow> number \<Rightarrow> number" where
  "js_max NaN _ = NaN"
| "js_max _ NaN = NaN"
| "js_max (Num a) (Num b) = Num (max a b)"
| "js_max PosInfinity _ = PosInfinity"
| "js_max _ PosInfinity = PosInfinity"
| "js_max NegInfinity b = b"
| "js_max a NegInfinity = a"

fun js_div :: "number \<Rightarrow> number \<Rightarrow> number" where
  "js_div NaN _ = NaN"
| "js_div _ NaN = NaN"
| "js_div (Num a) (Num b) =
     (if b \<noteq> 0 then Num (binary64 (a / b))
      else if a = 0 then NaN
      else if 0 < a then PosInfinity else NegInfinity)"
| "js_div (Num a) _ = Num 0"
| "js_div PosInfinity (Num b) = (if b < 0 then NegInfinity else PosInfinity)"
| "js_div NegInfinity (Num b) = (if b < 0 then PosInfinity else NegInfinity)"
| "js_div _ _ = NaN"

text \<open>\<open>null\<close> used as an operand of \<open>-\<close> converts to \<open>0\<close>.\<close>

fun ToNumber :: "number option \<Rightarrow> number" where
  "ToNumber None = Num 0"
| "ToNumber (Some x) = x"

fun isFinite :: "number \<Rightarrow> bool" where
  "isFinite (Num _) = True"
| "isFinite _ = False"

subsection \<open>Frames\<close>

text \<open>
  \<open>imageData.data\<close> is a \<open>Uint8ClampedArray\<close> holding four bytes (R, G, B, A) per pixel, so
  its length is a multiple of four. It is modelled as the list of its pixels:
  \<open>data.length = 4 * length data\<close>, and \<open>data[i]\<close>, \<open>data[i + 1]\<close>, \<open>data[i + 2]\<close> for a byte
  index \<open>i\<close> that is a multiple of 16 are the channels of pixel \<open>i / 4\<close>.
\<close>

record pixel =
  red :: "8 word"
  green :: "8 word"
  blue :: "8 word"
  alpha :: "8 word"

type_synonym imageData = "pixel list"

text \<open>
  \<open>Math.pow\<close> is an implementation-approximated function, so the embedding takes it as a
  parameter \<open>pow\<close>: what is proved for every \<open>pow\<close> holds for the engine's.
\<close>

type_synonym mathPow = "real \<Rightarrow> real \<Rightarrow> real"

definition pixelLuminance :: "mathPow \<Rightarrow> pixel \<Rightarrow> real" where
  "pixelLuminance pow p =
     (let r = binary64 (real (unat (red p)) / 255);
          g = binary64 (real (unat (green p)) / 255);
          b = binary64 (real (unat (blue p)) / 255);
          rLinear = (if r \<le> binary64 0.03928 then binary64 (r / binary64 12.92)
                     else pow (binary64 (binary64 (r + binary64 0.055) / binary64 1.055))
                            (binary64 2.4));
          gLinear = (if g \<le> binary64 0.03928 then binary64 (g / binary64 12.92)
                     else pow (binary64 (binary64 (g + binary64 0.055) / binary64 1.055))
                            (binary64 2.4));
          bLinear = (if b \<le> binary64 0.03928 then binary64 (b / binary64 12.92)
                     else pow (binary64 (binary64 (b + binary64 0.055) / binary64 1.055))
                            (binary64 2.4))
      in binary64
           (binary64 (binary64 (binary64 0.2126 * rLinear) + binary64 (binary64 0.7152 * gLinear))
            + binary64 (binary64 0.0722 * bLinear)))"

text \<open>
  The loop \<open>for (let i = 0; i < data.length; i += 16)\<close> visits pixel 0, 4, 8, ...: it
  handles the first pixel and continues behind the three that follow it.
\<close>

fun luminanceLoop :: "mathPow \<Rightarrow> imageData \<Rightarrow> real \<Rightarrow> real" where
  "luminanceLoop pow [] totalLuminance = totalLuminance"
| "luminanceLoop pow (p # ps) totalLuminance =
     luminanceLoop pow (drop 3 ps) (binary64 (totalLuminance + pixelLuminance pow p))"

text \<open>
  \<open>data.length / 4\<close> and \<open>pixelCount / 4\<close> are quotients of a whole number below \<open>2 ^ 53\<close> by
  four, which binary64 represents exactly; the final quotient is rounded by \<open>js_div\<close>.
\<close>

definition calculateLuminance :: "mathPow \<Rightarrow> imageData \<Rightarrow> number" where
  "calculateLuminance pow data =
     (let pixelCount = real (4 * length data) / 4
      in js_div (Num (luminanceLoop pow data 0)) (Num (pixelCount / 4)))"

definition isSaturatedRed :: "pixel \<Rightarrow> bool" where
  "isSaturatedRed p \<longleftrightarrow> unat (red p) > 200 \<and> unat (green p) < 100 \<and> unat (blue p) < 100"

fun redLoop :: "imageData \<Rightarrow> nat \<Rightarrow> nat" where
  "redLoop [] redSaturation = redSaturation"
| "redLoop (p # ps) redSaturation =
     redLoop (drop 3 ps) (if isSaturatedRed p then redSaturation + 1 else redSaturation)"

definition calculateRedSaturation :: "imageData \<Rightarrow> number" where
  "calculateRedSaturation data =
     (let pixelCount = real (4 * length data) / 4
      in js_div (Num (real (redLoop data 0))) (Num (pixelCount / 4)))"

subsection \<open>Detector state\<close>

text \<open>
  The part of the video element the detector reads and writes: \<open>paused\<close>, \<open>ended\<close> and
  \<open>currentTime\<close>. The constructor is only called with elements found by
  \<open>querySelectorAll('video')\<close>, so \<open>this.video\<close> is never null.
\<close>

record video =
  paused :: bool
  ended :: bool
  currentTime :: real

record FlashDetector =
  video :: video
  prevLuminance :: "number option"
  prevRedSaturation :: "number option"
  flashTimestamps :: "int list"
  redFlashTimestamps :: "int list"
  isAnalyzing :: bool
  warningShown :: bool
  frameCount :: nat
  analyzedFrameCount :: nat
  totalFlashes :: nat
  maxFlashesPerSecond :: nat

text \<open>The detection parameters and \<open>skipFrames\<close>: set by the constructor, never assigned again.\<close>

definition LUMINANCE_THRESHOLD :: real where "LUMINANCE_THRESHOLD = binary64 0.1"
definition RED_THRESHOLD :: real where "RED_THRESHOLD = binary64 0.8"
definition FLASH_FREQUENCY :: nat where "FLASH_FREQUENCY = 3"
definition DETECTION_WINDOW :: int where "DETECTION_WINDOW = 1000"
definition MIN_BRIGHTNESS :: real where "MIN_BRIGHTNESS = binary64 0.05"
definition WARMUP_FRAMES :: nat where "WARMUP_FRAMES = 10"
definition skipFrames :: nat where "skipFrames = 2"

definition constructor :: "video \<Rightarrow> FlashDetector" where
  "constructor v =
     \<lparr> video = v, prevLuminance = None, prevRedSaturation = None,
       flashTimestamps = [], redFlashTimestamps = [],
       isAnalyzing = False, warningShown = False,
       frameCount = 0, analyzedFrameCount = 0,
       totalFlashes = 0, maxFlashesPerSecond = 0 \<rparr>"

subsection \<open>The warning\<close>

datatype flashType = General | Red

text \<open>
  The \<open>detail\<close> of the \<open>flashDetected\<close> custom event. The statistics message
  \<open>flashDetected\<close> sent just before it carries the same \<open>totalFlashes\<close> as its count.
\<close>

record warning =
  detail_type :: flashType
  detail_flashCount :: nat
  detail_maxFlashesPerSecond :: nat
  detail_totalFlashes :: nat
  detail_timestamp :: real

definition triggerWarning :: "flashType \<Rightarrow> nat \<Rightarrow> FlashDetector \<Rightarrow> FlashDetector \<times> warning option" where
  "triggerWarning type flashCount s =
     (if warningShown s then (s, None)
      else
        let s1 = s\<lparr>warningShown := True\<rparr>;
            s2 = s1\<lparr>video := (video s1)\<lparr>paused := True\<rparr>\<rparr>
        in (s2, Some \<lparr> detail_type = type, detail_flashCount = flashCount,
                       detail_maxFlashesPerSecond = maxFlashesPerSecond s2,
                       detail_totalFlashes = totalFlashes s2,
                       detail_timestamp = currentTime (video s2) \<rparr>))"

subsection \<open>Reset\<close>

definition resetDetectionState :: "FlashDetector \<Rightarrow> FlashDetector" where
  "resetDetectionState s =
     s\<lparr> prevLuminance := None, prevRedSaturation := None,
        flashTimestamps := [], redFlashTimestamps := [],
        analyzedFrameCount := 0 \<rparr>"

subsection \<open>Frame analysis\<close>

text \<open>
  What \<open>drawImage\<close> and \<open>getImageData\<close> deliver for the current video frame: either the
  pixel data, or an exception (a zero-area canvas makes \<open>getImageData\<close> throw), which the
  \<open>catch\<close> of \<open>analyzeFrame\<close> logs and swallows.
\<close>

datatype capture = CaptureError | Captured imageData

text \<open>
  The two tests inside \<open>if (this.prevLuminance !== null)\<close>, as functions of the metrics
  they read: \<open>bothFramesBright\<close> is shared by the condition under which a timestamp is pushed
  on \<open>flashTimestamps\<close> and the one under which a timestamp is pushed on
  \<open>redFlashTimestamps\<close>.
\<close>

definition bothFramesBright :: "number \<Rightarrow> number \<Rightarrow> bool" where
  "bothFramesBright currentLuminance previousLuminance \<longleftrightarrow>
     js_gt currentLuminance (Num MIN_BRIGHTNESS) \<and> js_gt previousLuminance (Num MIN_BRIGHTNESS)"

definition generalFlashCondition :: "number \<Rightarrow> number \<Rightarrow> bool" where
  "generalFlashCondition currentLuminance previousLuminance =
     (let luminanceChange = js_abs (js_sub currentLuminance previousLuminance);
          relativeLuminanceChange = js_div luminanceChange (js_max previousLuminance (Num (binary64 0.01)));
          absoluteChangeSignificant = js_gt luminanceChange (Num (binary64 0.05))
      in js_gt relativeLuminanceChange (Num LUMINANCE_THRESHOLD)
         \<and> bothFramesBright currentLuminance previousLuminance
         \<and> absoluteChangeSignificant)"

definition redFlashCondition :: "number \<Rightarrow> number option \<Rightarrow> number \<Rightarrow> number \<Rightarrow> bool" where
  "redFlashCondition currentRedSaturation previousRedSaturation currentLuminance previousLuminance =
     (let redChange = js_abs (js_sub currentRedSaturation (ToNumber previousRedSaturation))
      in js_gt redChange (Num RED_THRESHOLD)
         \<and> bothFramesBright currentLuminance previousLuminance)"

text \<open>
  The body of \<open>if (this.prevLuminance !== null)\<close>, in two parts. First the comparison of
  the current frame with the previous one, the pruning of both timestamp lists and the
  update of \<open>maxFlashesPerSecond\<close>; \<open>previousLuminance\<close> is the non-null value of
  \<open>this.prevLuminance\<close>.
\<close>

definition updateWindows ::
  "number \<Rightarrow> number \<Rightarrow> int \<Rightarrow> number \<Rightarrow> FlashDetector \<Rightarrow> FlashDetector" where
  "updateWindows currentLuminance currentRedSaturation now previousLuminance s =
     (let s1 = (if generalFlashCondition currentLuminance previousLuminance
                then s\<lparr> flashTimestamps := flashTimestamps s @ [now],
                        totalFlashes := totalFlashes s + 1 \<rparr>
                else s);
          s2 = (if redFlashCondition currentRedSaturation (prevRedSaturation s1)
                     currentLuminance previousLuminance
                then s1\<lparr> redFlashTimestamps := redFlashTimestamps s1 @ [now] \<rparr>
                else s1);
          s3 = s2\<lparr> flashTimestamps :=
                    filter (\<lambda>t. now - t \<le> DETECTION_WINDOW) (flashTimestamps s2) \<rparr>;
          s4 = s3\<lparr> redFlashTimestamps :=
                    filter (\<lambda>t. now - t \<le> DETECTION_WINDOW) (redFlashTimestamps s3) \<rparr>
      in s4\<lparr> maxFlashesPerSecond :=
               max (maxFlashesPerSecond s4) (length (flashTimestamps s4)) \<rparr>)"

text \<open>Then the threshold check, the general list before the red one.\<close>

definition compareWithPrevious ::
  "number \<Rightarrow> number \<Rightarrow> int \<Rightarrow> number \<Rightarrow> FlashDetector \<Rightarrow> FlashDetector \<times> warning option" where
  "compareWithPrevious currentLuminance currentRedSaturation now previousLuminance s =
     (let s5 = updateWindows currentLuminance currentRedSaturation now previousLuminance s
      in if length (flashTimestamps s5) \<ge> FLASH_FREQUENCY
         then triggerWarning General (length (flashTimestamps s5)) s5
         else if length (redFlashTimestamps s5) \<ge> FLASH_FREQUENCY
         then triggerWarning Red (length (redFlashTimestamps s5)) s5
         else (s5, None))"

text \<open>
  The dark-frame guard:
  \<open>currentLuminance < MIN_BRIGHTNESS || (prevLuminance !== null && prevLuminance < MIN_BRIGHTNESS)\<close>.
\<close>

definition darkFrameGuard :: "number \<Rightarrow> number option \<Rightarrow> bool" where
  "darkFrameGuard currentLuminance previous \<longleftrightarrow>
     js_lt currentLuminance (Num MIN_BRIGHTNESS)
     \<or> (case previous of
           None \<Rightarrow> False
         | Some previousLuminance \<Rightarrow> js_lt previousLuminance (Num MIN_BRIGHTNESS))"

text \<open>
  \<open>analyzeFrame\<close>, with the captured frame and the value of \<open>Date.now()\<close> as inputs. The
  result is the new state and the warning event, if one was dispatched. The calls of
  \<open>requestAnimationFrame\<close> only schedule the next call and touch no field.
\<close>

definition analyzeFrame :: "mathPow \<Rightarrow> capture \<Rightarrow> int \<Rightarrow> FlashDetector \<Rightarrow> FlashDetector \<times> warning option" where
  "analyzeFrame pow cap now s =
     (if paused (video s) \<or> ended (video s) then (s, None)
      else
        let s1 = s\<lparr> frameCount := frameCount s + 1 \<rparr> in
        if frameCount s1 mod skipFrames \<noteq> 0 then (s1, None)
        else
          (case cap of
             CaptureError \<Rightarrow> (s1, None)
           | Captured imageData \<Rightarrow>
               let currentLuminance = calculateLuminance pow imageData;
                   currentRedSaturation = calculateRedSaturation imageData;
                   s2 = s1\<lparr> analyzedFrameCount := analyzedFrameCount s1 + 1 \<rparr>
               in
                 if analyzedFrameCount s2 \<le> WARMUP_FRAMES then
                   (s2\<lparr> prevLuminance := Some currentLuminance,
                        prevRedSaturation := Some currentRedSaturation \<rparr>, None)
                 else if darkFrameGuard currentLuminance (prevLuminance s2) then
                   (s2\<lparr> prevLuminance := Some currentLuminance,
                        prevRedSaturation := Some currentRedSaturation \<rparr>, None)
                 else
                   let (s3, w) =
                         (case prevLuminance s2 of
                            None \<Rightarrow> (s2, None)
                          | Some previousLuminance \<Rightarrow>
                              compareWithPrevious currentLuminance currentRedSaturation now
                                previousLuminance s2)
                   in (s3\<lparr> prevLuminance := Some currentLuminance,
                            prevRedSaturation := Some currentRedSaturation \<rparr>, w)))"

text \<open>
  The path condition of the comparison: the video is playing, the call is not skipped, the
  frame is past the warmup, the dark-frame guard does not trigger and there is a previous
  luminance.
\<close>

definition compares :: "mathPow \<Rightarrow> imageData \<Rightarrow> FlashDetector \<Rightarrow> bool" where
  "compares pow img s \<longleftrightarrow>
     \<not> paused (video s) \<and> \<not> ended (video s)
     \<and> (frameCount s + 1) mod skipFrames = 0
     \<and> WARMUP_FRAMES < analyzedFrameCount s + 1
     \<and> \<not> darkFrameGuard (calculateLuminance pow img) (prevLuminance s)
     \<and> prevLuminance s \<noteq> None"

text \<open>The same for any result of the capture: a failed capture never reaches it.\<close>

definition reachesComparison :: "mathPow \<Rightarrow> capture \<Rightarrow> FlashDetector \<Rightarrow> bool" where
  "reachesComparison pow cap s =
     (case cap of CaptureError \<Rightarrow> False | Captured img \<Rightarrow> compares pow img s)"

subsection \<open>Start, stop, reset of the warning\<close>

text \<open>\<open>start\<close> ends with a call of \<open>analyzeFrame\<close>, so it takes that call's inputs.\<close>

definition start :: "mathPow \<Rightarrow> capture \<Rightarrow> int \<Rightarrow> FlashDetector \<Rightarrow> FlashDetector \<times> warning option" where
  "start pow cap now s =
     (if isAnalyzing s then (s, None)
      else analyzeFrame pow cap now
             (resetDetectionState
                (s\<lparr> isAnalyzing := True, warningShown := False,
                    totalFlashes := 0, maxFlashesPerSecond := 0 \<rparr>)))"

definition stop :: "FlashDetector \<Rightarrow> FlashDetector" where
  "stop s = s\<lparr> isAnalyzing := False \<rparr>"

definition resetWarning :: "FlashDetector \<Rightarrow> FlashDetector" where
  "resetWarning s = resetDetectionState (s\<lparr> warningShown := False \<rparr>)"

subsection \<open>Sessions\<close>

text \<open>
  What can happen to a detector, in any order: a method is called (by an animation-frame
  callback or by one of the listeners on the video element and the overlay), or the
  browser, the user or the page changes the video element itself.
\<close>

datatype event =
    CallAnalyzeFrame capture int
  | CallStart capture int
  | CallStop
  | CallResetDetectionState
  | CallResetWarning
  | VideoChanged video

fun step :: "mathPow \<Rightarrow> event \<Rightarrow> FlashDetector \<Rightarrow> FlashDetector \<times> warning option" where
  "step pow (CallAnalyzeFrame cap now) s = analyzeFrame pow cap now s"
| "step pow (CallStart cap now) s = start pow cap now s"
| "step pow CallStop s = (stop s, None)"
| "step pow CallResetDetectionState s = (resetDetectionState s, None)"
| "step pow CallResetWarning s = (resetWarning s, None)"
| "step pow (VideoChanged v) s = (s\<lparr> video := v \<rparr>, None)"

text \<open>A session: the final state and the warnings dispatched, oldest first.\<close>

fun run :: "mathPow \<Rightarrow> event list \<Rightarrow> FlashDetector \<Rightarrow> FlashDetector \<times> warning list" where
  "run pow [] s = (s, [])"
| "run pow (e # es) s =
     (let (s1, w) = step pow e s;
          (s2, ws) = run pow es s1
      in (s2, (case w of None \<Rightarrow> [] | Some x \<Rightarrow> [x]) @ ws))"

text \<open>A sequence of animation-frame callbacks, each with its captured frame and its time.\<close>

definition frameCalls :: "(capture \<times> int) list \<Rightarrow> event list" where
  "frameCalls frames = map (\<lambda>(cap, now). CallAnalyzeFrame cap now) frames"

text \<open>The events that clear the warning latch.\<close>

fun clearsLatch :: "event \<Rightarrow> bool" where
  "clearsLatch (CallStart _ _) = True"
| "clearsLatch CallResetWarning = True"
| "clearsLatch _ = False"

text \<open>
  The number of frames analysed in a session, that is, of the calls of \<open>analyzeFrame\<close> (the
  one made by \<open>start\<close> included) that find the video playing, pass the stride filter and
  capture their frame. It is defined from what each call finds, not from the counter
  \<open>analyzedFrameCount\<close>.
\<close>

definition admitted :: "capture \<Rightarrow> FlashDetector \<Rightarrow> bool" where
  "admitted cap s \<longleftrightarrow>
     \<not> paused (video s) \<and> \<not> ended (video s)
     \<and> (frameCount s + 1) mod skipFrames = 0 \<and> cap \<noteq> CaptureError"

fun analyses :: "event \<Rightarrow> FlashDetector \<Rightarrow> bool" where
  "analyses (CallAnalyzeFrame cap now) s = admitted cap s"
| "analyses (CallStart cap now) s = (\<not> isAnalyzing s \<and> admitted cap s)"
| "analyses _ s = False"

fun analysedFrames :: "mathPow \<Rightarrow> event list \<Rightarrow> FlashDetector \<Rightarrow> nat" where
  "analysedFrames pow [] s = 0"
| "analysedFrames pow (e # es) s =
     (if analyses e s then 1 else 0) + analysedFrames pow es (fst (step pow e s))"

subsection \<open>Concrete frames and states\<close>

text \<open>
  Where a property is evaluated on an input, \<open>Math.pow\<close> is the correctly rounded power.
  The frames below evaluate it at base 1 only, where every \<open>Math.pow\<close> returns 1.
\<close>

definition roundedPow :: mathPow where
  "roundedPow x y = binary64 (x powr y)"

text \<open>
  Frames of 80 pixels (20 of them sampled): all white, all saturated red, all black, and
  white on one, four, seven and eight sampled pixels in twenty, the other pixels black
  (luminance \<open>binary64 (k / 20)\<close>; for one pixel it equals the literal \<open>0.05\<close>).
\<close>

definition whitePixel :: pixel where
  "whitePixel = \<lparr> red = 255, green = 255, blue = 255, alpha = 255 \<rparr>"

definition blackPixel :: pixel where
  "blackPixel = \<lparr> red = 0, green = 0, blue = 0, alpha = 255 \<rparr>"

definition redPixel :: pixel where
  "redPixel = \<lparr> red = 255, green = 0, blue = 0, alpha = 255 \<rparr>"

definition whiteFrame :: imageData where
  "whiteFrame = replicate 80 whitePixel"

definition redFrame :: imageData where
  "redFrame = replicate 80 redPixel"

definition blackFrame :: imageData where
  "blackFrame = replicate 80 blackPixel"

definition dimFrame :: imageData where
  "dimFrame = replicate 4 whitePixel @ replicate 76 blackPixel"

definition greyFrame :: imageData where
  "greyFrame = replicate 16 whitePixel @ replicate 64 blackPixel"

definition sevenFrame :: imageData where
  "sevenFrame = replicate 28 whitePixel @ replicate 52 blackPixel"

definition eightFrame :: imageData where
  "eightFrame = replicate 32 whitePixel @ replicate 48 blackPixel"

definition playing :: video where
  "playing = \<lparr> paused = False, ended = False, currentTime = 12 \<rparr>"

text \<open>
  A state of a detector on a playing video, \<open>calls\<close> calls of \<open>analyzeFrame\<close> after \<open>start\<close>:
  every second call was analysed, the last analysed frame was \<open>img\<close>, the windows and the
  latch are as given, and no general flash has left the window yet, so that both counters
  of general flashes equal its length.
\<close>

definition warmedUp ::
  "imageData \<Rightarrow> int list \<Rightarrow> int list \<Rightarrow> bool \<Rightarrow> nat \<Rightarrow> FlashDetector" where
  "warmedUp img general redList latch calls =
     \<lparr> video = playing,
       prevLuminance = Some (calculateLuminance roundedPow img),
       prevRedSaturation = Some (calculateRedSaturation img),
       flashTimestamps = general, redFlashTimestamps = redList,
       isAnalyzing = True, warningShown = latch,
       frameCount = calls, analyzedFrameCount = calls div 2,
       totalFlashes = length general, maxFlashesPerSecond = length general \<rparr>"

text \<open>
  The session that precedes those states: \<open>start\<close> on a new detector and twenty further
  calls of \<open>analyzeFrame\<close>, all with the frame \<open>img\<close>.
\<close>

definition warmupSession :: "imageData \<Rightarrow> event list" where
  "warmupSession img =
     CallStart (Captured img) 0 # CallAnalyzeFrame (Captured img) 16
       # concat (replicate 9 [CallAnalyzeFrame (Captured img) 33, CallAnalyzeFrame (Captured img) 50])
       @ [CallAnalyzeFrame (Captured img) 66]"

section \<open>Properties\<close>

subsection \<open>Evaluating binary64\<close>

lemma binary64_eval:
  assumes "2 powr (of_int e) \<le> \<bar>x\<bar>" "\<bar>x\<bar> < 2 powr (of_int (e + 1))" "- 1022 \<le> e"
  shows "binary64 x =
    of_int (roundToEven (x / 2 powr (of_int (e - 52)))) * 2 powr (of_int (e - 52))"
proof -
  have pos: "0 < \<bar>x\<bar>"
    using assms(1) by (smt (verit) powr_gt_zero)
  have "\<lfloor>log 2 \<bar>x\<bar>\<rfloor> = e"
    using assms(1,2) pos by (simp add: floor_log_eq_powr_iff)
  with pos assms(3) show ?thesis
    by (simp add: binary64_def Let_def max_def)
qed

lemma binary64_zero: "binary64 0 = 0"
  by (simp add: binary64_def)

text \<open>The same, one binade at a time, for the binades the concrete inputs fall in.\<close>

lemma binary64_binade:
  "1 / 1024 \<le> \<bar>x\<bar> \<Longrightarrow> \<bar>x\<bar> < 1 / 512 \<Longrightarrow>
     binary64 x = of_int (roundToEven (x * 2 ^ 62)) / 2 ^ 62"
  "1 / 512 \<le> \<bar>x\<bar> \<Longrightarrow> \<bar>x\<bar> < 1 / 256 \<Longrightarrow>
     binary64 x = of_int (roundToEven (x * 2 ^ 61)) / 2 ^ 61"
  "1 / 256 \<le> \<bar>x\<bar> \<Longrightarrow> \<bar>x\<bar> < 1 / 128 \<Longrightarrow>
     binary64 x = of_int (roundToEven (x * 2 ^ 60)) / 2 ^ 60"
  "1 / 128 \<le> \<bar>x\<bar> \<Longrightarrow> \<bar>x\<bar> < 1 / 64 \<Longrightarrow>
     binary64 x = of_int (roundToEven (x * 2 ^ 59)) / 2 ^ 59"
  "1 / 64 \<le> \<bar>x\<bar> \<Longrightarrow> \<bar>x\<bar> < 1 / 32 \<Longrightarrow>
     binary64 x = of_int (roundToEven (x * 2 ^ 58)) / 2 ^ 58"
  "1 / 32 \<le> \<bar>x\<bar> \<Longrightarrow> \<bar>x\<bar> < 1 / 16 \<Longrightarrow>
     binary64 x = of_int (roundToEven (x * 2 ^ 57)) / 2 ^ 57"
  "1 / 16 \<le> \<bar>x\<bar> \<Longrightarrow> \<bar>x\<bar> < 1 / 8 \<Longrightarrow>
     binary64 x = of_int (roundToEven (x * 2 ^ 56)) / 2 ^ 56"
  "1 / 8 \<le> \<bar>x\<bar> \<Longrightarrow> \<bar>x\<bar> < 1 / 4 \<Longrightarrow>
     binary64 x = of_int (roundToEven (x * 2 ^ 55)) / 2 ^ 55"
  "1 / 4 \<le> \<bar>x\<bar> \<Longrightarrow> \<bar>x\<bar> < 1 / 2 \<Longrightarrow>
     binary64 x = of_int (roundToEven (x * 2 ^ 54)) / 2 ^ 54"
  "1 / 2 \<le> \<bar>x\<bar> \<Longrightarrow> \<bar>x\<bar> < 1 \<Longrightarrow>
     binary64 x = of_int (roundToEven (x * 2 ^ 53)) / 2 ^ 53"
  "1 \<le> \<bar>x\<bar> \<Longrightarrow> \<bar>x\<bar> < 2 \<Longrightarrow>
     binary64 x = of_int (roundToEven (x * 2 ^ 52)) / 2 ^ 52"
  "2 \<le> \<bar>x\<bar> \<Longrightarrow> \<bar>x\<bar> < 4 \<Longrightarrow>
     binary64 x = of_int (roundToEven (x * 2 ^ 51)) / 2 ^ 51"
  "4 \<le> \<bar>x\<bar> \<Longrightarrow> \<bar>x\<bar> < 8 \<Longrightarrow>
     binary64 x = of_int (roundToEven (x * 2 ^ 50)) / 2 ^ 50"
  "8 \<le> \<bar>x\<bar> \<Longrightarrow> \<bar>x\<bar> < 16 \<Longrightarrow>
     binary64 x = of_int (roundToEven (x * 2 ^ 49)) / 2 ^ 49"
  "16 \<le> \<bar>x\<bar> \<Longrightarrow> \<bar>x\<bar> < 32 \<Longrightarrow>
     binary64 x = of_int (roundToEven (x * 2 ^ 48)) / 2 ^ 48"
  "32 \<le> \<bar>x\<bar> \<Longrightarrow> \<bar>x\<bar> < 64 \<Longrightarrow>
     binary64 x = of_int (roundToEven (x * 2 ^ 47)) / 2 ^ 47"
  "64 \<le> \<bar>x\<bar> \<Longrightarrow> \<bar>x\<bar> < 128 \<Longrightarrow>
     binary64 x = of_int (roundToEven (x * 2 ^ 46)) / 2 ^ 46"
  using
    binary64_eval [of "-10" x]
    binary64_eval [of "-9" x]
    binary64_eval [of "-8" x]
    binary64_eval [of "-7" x]
    binary64_eval [of "-6" x]
    binary64_eval [of "-5" x]
    binary64_eval [of "-4" x]
    binary64_eval [of "-3" x]
    binary64_eval [of "-2" x]
    binary64_eval [of "-1" x]
    binary64_eval [of "0" x]
    binary64_eval [of "1" x]
    binary64_eval [of "2" x]
    binary64_eval [of "3" x]
    binary64_eval [of "4" x]
    binary64_eval [of "5" x]
    binary64_eval [of "6" x]
  by (simp_all add: powr_minus powr_numeral field_simps)

lemmas binary64_simps = binary64_zero binary64_binade roundToEven_def Let_def

text \<open>The literals of the source, as binary64 numbers.\<close>

lemma literals:
  "binary64 0.05 = 3602879701896397 / 72057594037927936"
  "binary64 0.01 = 5764607523034235 / 576460752303423488"
  "binary64 0.1 = 3602879701896397 / 36028797018963968"
  "binary64 0.8 = 3602879701896397 / 4503599627370496"
  "binary64 0.2126 = 1914930561557935 / 9007199254740992"
  "binary64 0.7152 = 6441948906990757 / 9007199254740992"
  "binary64 0.0722 = 5202558289538397 / 72057594037927936"
  "binary64 0.055 = 7926335344172073 / 144115188075855872"
  "binary64 1.055 = 4751297606875873 / 4503599627370496"
  "binary64 0.03928 = 5660844587619619 / 144115188075855872"
  "binary64 12.92 = 7273313398203351 / 562949953421312"
  "binary64 2.4 = 5404319552844595 / 2251799813685248"
  by (simp_all add: binary64_simps)

subsection \<open>Metrics of the concrete frames\<close>

text \<open>
  The luminance of a white, a black and a saturated red pixel, step by step as
  \<open>calculateLuminance\<close> computes it. For a channel of 255 the argument of \<open>Math.pow\<close> is
  exactly 1.
\<close>

lemma channel_values:
  "binary64 (real (unat (255 :: 8 word)) / 255) = 1"
  "binary64 (real (unat (0 :: 8 word)) / 255) = 0"
  by (simp_all add: binary64_simps)

lemma linear_threshold:
  "(1 \<le> binary64 0.03928) = False" "(0 \<le> binary64 0.03928) = True"
  by (simp_all add: binary64_simps)

lemma gamma_of_one: "binary64 (binary64 (1 + binary64 0.055) / binary64 1.055) = 1"
  by (simp add: literals binary64_simps)

lemma linear_of_zero: "binary64 (0 / binary64 12.92) = 0"
  by (simp add: binary64_zero)

lemma roundedPow_one: "roundedPow 1 y = 1"
  by (simp add: roundedPow_def binary64_simps)

lemma weighted_sums:
  "binary64 (binary64 (binary64 (binary64 0.2126 * 1) + binary64 (binary64 0.7152 * 1))
     + binary64 (binary64 0.0722 * 1)) = 1"
  "binary64 (binary64 (binary64 (binary64 0.2126 * 0) + binary64 (binary64 0.7152 * 0))
     + binary64 (binary64 0.0722 * 0)) = 0"
  "binary64 (binary64 (binary64 (binary64 0.2126 * 1) + binary64 (binary64 0.7152 * 0))
     + binary64 (binary64 0.0722 * 0)) = 1914930561557935 / 9007199254740992"
  by (simp_all add: literals binary64_simps)

lemma pixelLuminance_white: "pixelLuminance roundedPow whitePixel = 1"
  by (simp only: pixelLuminance_def whitePixel_def Let_def pixel.simps channel_values
      linear_threshold if_False gamma_of_one roundedPow_one weighted_sums)

lemma pixelLuminance_black: "pixelLuminance pow blackPixel = 0"
  by (simp only: pixelLuminance_def blackPixel_def Let_def pixel.simps channel_values
      linear_threshold if_True linear_of_zero weighted_sums)

lemma pixelLuminance_red:
  "pixelLuminance roundedPow redPixel = 1914930561557935 / 9007199254740992"
  by (simp only: pixelLuminance_def redPixel_def Let_def pixel.simps channel_values
      linear_threshold if_False if_True gamma_of_one roundedPow_one linear_of_zero weighted_sums)

lemma isSaturatedRed_pixels:
  "isSaturatedRed redPixel" "\<not> isSaturatedRed whitePixel" "\<not> isSaturatedRed blackPixel"
  by (simp_all add: isSaturatedRed_def redPixel_def whitePixel_def blackPixel_def)

text \<open>The sums that the loop accumulates, rounded after each addition.\<close>

lemma funpow_numeral_step: "(f ^^ numeral k) x = (f ^^ pred_numeral k) (f x)"
  by (simp add: numeral_eq_Suc funpow_swap1)

lemma accumulate_white:
  "((\<lambda>t. binary64 (t + 1)) ^^ 20) 0 = 20"
  "((\<lambda>t. binary64 (t + 1)) ^^ 1) 0 = 1"
  "((\<lambda>t. binary64 (t + 1)) ^^ 4) 0 = 4"
  "((\<lambda>t. binary64 (t + 1)) ^^ 7) 0 = 7"
  "((\<lambda>t. binary64 (t + 1)) ^^ 8) 0 = 8"
  by (simp_all add: funpow_numeral_step binary64_simps)

lemma accumulate_red:
  "((\<lambda>t. binary64 (t + 1914930561557935 / 9007199254740992)) ^^ 20) 0
     = 4787326403894839 / 1125899906842624"
  by (simp add: funpow_numeral_step binary64_simps)

text \<open>
  Over \<open>4 * k\<close> equal pixels the loop adds the luminance of the pixel \<open>k\<close> times, rounding
  after each addition.
\<close>

lemma luminanceLoop_replicate:
  "luminanceLoop pow (replicate (4 * k) p @ rest) t =
     luminanceLoop pow rest (((\<lambda>t. binary64 (t + pixelLuminance pow p)) ^^ k) t)"
proof (induction k arbitrary: t)
  case 0
  show ?case by simp
next
  case (Suc k)
  have "replicate (4 * Suc k) p @ rest = p # p # p # p # (replicate (4 * k) p @ rest)"
    by (simp add: numeral_eq_Suc)
  then have "luminanceLoop pow (replicate (4 * Suc k) p @ rest) t =
      luminanceLoop pow (replicate (4 * k) p @ rest) (binary64 (t + pixelLuminance pow p))"
    by simp
  also have "\<dots> = luminanceLoop pow rest
      (((\<lambda>t. binary64 (t + pixelLuminance pow p)) ^^ k) (binary64 (t + pixelLuminance pow p)))"
    by (rule Suc.IH)
  also have "((\<lambda>t. binary64 (t + pixelLuminance pow p)) ^^ k) (binary64 (t + pixelLuminance pow p))
      = ((\<lambda>t. binary64 (t + pixelLuminance pow p)) ^^ Suc k) t"
    by (simp only: funpow_Suc_right o_apply)
  finally show ?case .
qed

lemma luminanceLoop_replicate_all:
  "luminanceLoop pow (replicate (4 * k) p) t =
     ((\<lambda>t. binary64 (t + pixelLuminance pow p)) ^^ k) t"
  using luminanceLoop_replicate [where rest = "[]"] by simp

lemma redLoop_replicate:
  "redLoop (replicate (4 * k) p @ rest) n = redLoop rest (if isSaturatedRed p then n + k else n)"
proof (induction k arbitrary: n)
  case 0
  show ?case by simp
next
  case (Suc k)
  have "replicate (4 * Suc k) p @ rest = p # p # p # p # (replicate (4 * k) p @ rest)"
    by (simp add: numeral_eq_Suc)
  then show ?case
    using Suc.IH by simp
qed

lemma accumulate_black: "binary64 x = x \<Longrightarrow> ((\<lambda>t. binary64 (t + 0)) ^^ k) x = x"
  by (induction k) simp_all

lemma calculateLuminance_80:
  "length img = 80 \<Longrightarrow>
     calculateLuminance pow img = js_div (Num (luminanceLoop pow img 0)) (Num 20)"
  by (simp add: calculateLuminance_def)

lemma loop_whiteFrame: "luminanceLoop roundedPow whiteFrame 0 = 20"
  using luminanceLoop_replicate_all [where k = 20 and p = whitePixel and pow = roundedPow and t = 0]
  by (simp add: whiteFrame_def pixelLuminance_white accumulate_white)

lemma loop_redFrame:
  "luminanceLoop roundedPow redFrame 0 = 4787326403894839 / 1125899906842624"
  using luminanceLoop_replicate_all [where k = 20 and p = redPixel and pow = roundedPow and t = 0]
  by (simp only: redFrame_def pixelLuminance_red accumulate_red) simp

lemma loop_blackFrame: "luminanceLoop pow blackFrame 0 = 0"
  using luminanceLoop_replicate_all [where k = 20 and p = blackPixel and pow = pow and t = 0]
    accumulate_black [where x = 0 and k = 20]
  by (simp add: blackFrame_def pixelLuminance_black binary64_zero)

lemma loop_mixed:
  assumes "((\<lambda>t. binary64 (t + 1)) ^^ k) 0 = real k" "binary64 (real k) = real k"
  shows "luminanceLoop roundedPow (replicate (4 * k) whitePixel @ replicate (4 * j) blackPixel) 0
     = real k"
proof -
  have "luminanceLoop roundedPow (replicate (4 * k) whitePixel @ replicate (4 * j) blackPixel) 0
      = luminanceLoop roundedPow (replicate (4 * j) blackPixel) (real k)"
    using luminanceLoop_replicate [where pow = roundedPow and p = whitePixel and k = k and t = 0]
      assms(1) by (simp add: pixelLuminance_white)
  also have "\<dots> = real k"
    using luminanceLoop_replicate_all [where pow = roundedPow and p = blackPixel
        and k = j and t = "real k"] accumulate_black [where x = "real k" and k = j] assms(2)
    by (simp add: pixelLuminance_black)
  finally show ?thesis .
qed

lemma binary64_small: "binary64 1 = 1" "binary64 4 = 4" "binary64 7 = 7" "binary64 8 = 8"
  by (simp_all add: binary64_simps)

lemma loop_dimFrame: "luminanceLoop roundedPow dimFrame 0 = 1"
  using loop_mixed [where k = 1 and j = 19] by (simp add: dimFrame_def binary64_small)

lemma loop_greyFrame: "luminanceLoop roundedPow greyFrame 0 = 4"
  using loop_mixed [where k = 4 and j = 16] by (simp add: greyFrame_def accumulate_white binary64_small)

lemma loop_sevenFrame: "luminanceLoop roundedPow sevenFrame 0 = 7"
  using loop_mixed [where k = 7 and j = 13] by (simp add: sevenFrame_def accumulate_white binary64_small)

lemma loop_eightFrame: "luminanceLoop roundedPow eightFrame 0 = 8"
  using loop_mixed [where k = 8 and j = 12] by (simp add: eightFrame_def accumulate_white binary64_small)

lemma frame_lengths:
  "length whiteFrame = 80" "length redFrame = 80" "length blackFrame = 80"
  "length dimFrame = 80" "length greyFrame = 80" "length sevenFrame = 80" "length eightFrame = 80"
  by (simp_all add: whiteFrame_def redFrame_def blackFrame_def dimFrame_def greyFrame_def
      sevenFrame_def eightFrame_def)

text \<open>White on \<open>k\<close> of the twenty sampled pixels: the luminance is \<open>binary64 (k / 20)\<close>.\<close>

lemma luminance_whiteFrame: "calculateLuminance roundedPow whiteFrame = Num 1"
  by (simp add: calculateLuminance_80 frame_lengths loop_whiteFrame binary64_simps)

lemma luminance_redFrame:
  "calculateLuminance roundedPow redFrame = Num (3829861123115871 / 18014398509481984)"
  by (simp add: calculateLuminance_80 frame_lengths loop_redFrame binary64_simps)

lemma luminance_blackFrame: "calculateLuminance pow blackFrame = Num 0"
  by (simp add: calculateLuminance_80 frame_lengths loop_blackFrame binary64_simps)

lemma luminance_dimFrame:
  "calculateLuminance roundedPow dimFrame = Num (3602879701896397 / 72057594037927936)"
  by (simp add: calculateLuminance_80 frame_lengths loop_dimFrame binary64_simps)

lemma luminance_greyFrame:
  "calculateLuminance roundedPow greyFrame = Num (3602879701896397 / 18014398509481984)"
  by (simp add: calculateLuminance_80 frame_lengths loop_greyFrame binary64_simps)

lemma luminance_sevenFrame:
  "calculateLuminance roundedPow sevenFrame = Num (3152519739159347 / 9007199254740992)"
  by (simp add: calculateLuminance_80 frame_lengths loop_sevenFrame binary64_simps)

lemma luminance_eightFrame:
  "calculateLuminance roundedPow eightFrame = Num (3602879701896397 / 9007199254740992)"
  by (simp add: calculateLuminance_80 frame_lengths loop_eightFrame binary64_simps)

lemma redSaturation_whiteFrame: "calculateRedSaturation whiteFrame = Num 0"
  using redLoop_replicate [where k = 20 and p = whitePixel and rest = "[]" and n = 0]
  by (simp add: calculateRedSaturation_def whiteFrame_def isSaturatedRed_pixels binary64_zero)

lemma redSaturation_redFrame: "calculateRedSaturation redFrame = Num 1"
  using redLoop_replicate [where k = 20 and p = redPixel and rest = "[]" and n = 0]
  by (simp add: calculateRedSaturation_def redFrame_def isSaturatedRed_pixels binary64_small)

lemma redSaturation_blackFrame: "calculateRedSaturation blackFrame = Num 0"
  using redLoop_replicate [where k = 20 and p = blackPixel and rest = "[]" and n = 0]
  by (simp add: calculateRedSaturation_def blackFrame_def isSaturatedRed_pixels binary64_zero)

lemma redSaturation_mixed:
  "calculateRedSaturation (replicate (4 * k) whitePixel @ replicate (4 * j) blackPixel) =
     js_div (Num 0) (Num (real (4 * (4 * k + 4 * j)) / 4 / 4))"
  using redLoop_replicate [where k = k and p = whitePixel and n = 0
      and rest = "replicate (4 * j) blackPixel"]
    redLoop_replicate [where k = j and p = blackPixel and rest = "[]" and n = 0]
  by (simp add: calculateRedSaturation_def isSaturatedRed_pixels)

lemma redSaturation_dimFrame: "calculateRedSaturation dimFrame = Num 0"
  using redSaturation_mixed [where k = 1 and j = 19] by (simp add: dimFrame_def binary64_zero)

lemma redSaturation_greyFrame: "calculateRedSaturation greyFrame = Num 0"
  using redSaturation_mixed [where k = 4 and j = 16] by (simp add: greyFrame_def binary64_zero)

lemma redSaturation_sevenFrame: "calculateRedSaturation sevenFrame = Num 0"
  using redSaturation_mixed [where k = 7 and j = 13] by (simp add: sevenFrame_def binary64_zero)

lemma redSaturation_eightFrame: "calculateRedSaturation eightFrame = Num 0"
  using redSaturation_mixed [where k = 8 and j = 12] by (simp add: eightFrame_def binary64_zero)

lemmas frame_metrics =
  luminance_whiteFrame redSaturation_whiteFrame luminance_redFrame redSaturation_redFrame
  luminance_blackFrame redSaturation_blackFrame luminance_dimFrame redSaturation_dimFrame
  luminance_greyFrame redSaturation_greyFrame luminance_sevenFrame redSaturation_sevenFrame
  luminance_eightFrame redSaturation_eightFrame

subsection \<open>Conditions on finite metrics\<close>

lemma generalFlashCondition_Num:
  "generalFlashCondition (Num c) (Num p) \<longleftrightarrow>
     binary64 (\<bar>binary64 (c - p)\<bar> / max p (binary64 0.01)) > binary64 0.1
     \<and> c > binary64 0.05 \<and> p > binary64 0.05 \<and> \<bar>binary64 (c - p)\<bar> > binary64 0.05"
proof -
  have "0 < binary64 0.01" by (simp add: binary64_simps)
  then have "max p (binary64 0.01) \<noteq> 0" by (simp add: max_def)
  then show ?thesis
    by (simp add: generalFlashCondition_def bothFramesBright_def js_gt_def Let_def
        LUMINANCE_THRESHOLD_def MIN_BRIGHTNESS_def)
qed

lemma redFlashCondition_Num:
  "redFlashCondition (Num rc) (Some (Num rp)) (Num c) (Num p) \<longleftrightarrow>
     \<bar>binary64 (rc - rp)\<bar> > binary64 0.8 \<and> c > binary64 0.05 \<and> p > binary64 0.05"
  by (simp add: redFlashCondition_def bothFramesBright_def js_gt_def Let_def
      RED_THRESHOLD_def MIN_BRIGHTNESS_def)

lemma darkFrameGuard_Num:
  "darkFrameGuard (Num c) (Some (Num p)) \<longleftrightarrow> c < binary64 0.05 \<or> p < binary64 0.05"
  by (simp add: darkFrameGuard_def MIN_BRIGHTNESS_def)


subsection \<open>The warning latch\<close>

lemma triggerWarning_latched: "warningShown s \<Longrightarrow> triggerWarning ty n s = (s, None)"
  by (simp add: triggerWarning_def)

lemma triggerWarning_fields:
  "flashTimestamps (fst (triggerWarning ty n s)) = flashTimestamps s"
  "redFlashTimestamps (fst (triggerWarning ty n s)) = redFlashTimestamps s"
  "totalFlashes (fst (triggerWarning ty n s)) = totalFlashes s"
  "maxFlashesPerSecond (fst (triggerWarning ty n s)) = maxFlashesPerSecond s"
  "prevLuminance (fst (triggerWarning ty n s)) = prevLuminance s"
  "prevRedSaturation (fst (triggerWarning ty n s)) = prevRedSaturation s"
  "frameCount (fst (triggerWarning ty n s)) = frameCount s"
  "analyzedFrameCount (fst (triggerWarning ty n s)) = analyzedFrameCount s"
  "isAnalyzing (fst (triggerWarning ty n s)) = isAnalyzing s"
  by (simp_all add: triggerWarning_def Let_def)

lemma triggerWarning_emits:
  "snd (triggerWarning ty n s) = Some w \<Longrightarrow>
     \<not> warningShown s \<and> warningShown (fst (triggerWarning ty n s))
     \<and> paused (video (fst (triggerWarning ty n s)))
     \<and> w = \<lparr> detail_type = ty, detail_flashCount = n,
              detail_maxFlashesPerSecond = maxFlashesPerSecond s,
              detail_totalFlashes = totalFlashes s,
              detail_timestamp = currentTime (video s) \<rparr>"
  by (auto simp add: triggerWarning_def Let_def split: if_splits)

lemma triggerWarning_keeps_latch:
  "warningShown s \<Longrightarrow> warningShown (fst (triggerWarning ty n s))"
  by (simp add: triggerWarning_def)

lemma triggerWarning_state:
  "fst (triggerWarning ty n s) =
     (if warningShown s then s
      else s\<lparr> video := (video s)\<lparr> paused := True \<rparr>, warningShown := True \<rparr>)"
  by (simp add: triggerWarning_def Let_def)

subsection \<open>The comparison with the previous frame\<close>

lemma updateWindows_flashTimestamps:
  "flashTimestamps (updateWindows cl cr now pl s) =
     filter (\<lambda>t. now - t \<le> DETECTION_WINDOW)
       (flashTimestamps s @ (if generalFlashCondition cl pl then [now] else []))"
  by (simp add: updateWindows_def Let_def)

lemma updateWindows_redFlashTimestamps:
  "redFlashTimestamps (updateWindows cl cr now pl s) =
     filter (\<lambda>t. now - t \<le> DETECTION_WINDOW)
       (redFlashTimestamps s
          @ (if redFlashCondition cr (prevRedSaturation s) cl pl then [now] else []))"
  by (simp add: updateWindows_def Let_def)

lemma updateWindows_totalFlashes:
  "totalFlashes (updateWindows cl cr now pl s) =
     totalFlashes s + (if generalFlashCondition cl pl then 1 else 0)"
  by (simp add: updateWindows_def Let_def)

lemma updateWindows_maxFlashesPerSecond:
  "maxFlashesPerSecond (updateWindows cl cr now pl s) =
     max (maxFlashesPerSecond s) (length (flashTimestamps (updateWindows cl cr now pl s)))"
  by (simp add: updateWindows_def Let_def)

lemma updateWindows_other:
  "video (updateWindows cl cr now pl s) = video s"
  "warningShown (updateWindows cl cr now pl s) = warningShown s"
  "isAnalyzing (updateWindows cl cr now pl s) = isAnalyzing s"
  "frameCount (updateWindows cl cr now pl s) = frameCount s"
  "analyzedFrameCount (updateWindows cl cr now pl s) = analyzedFrameCount s"
  "prevLuminance (updateWindows cl cr now pl s) = prevLuminance s"
  "prevRedSaturation (updateWindows cl cr now pl s) = prevRedSaturation s"
  by (simp_all add: updateWindows_def Let_def)

lemma updateWindows_state:
  "updateWindows cl cr now pl s =
     (let flashes = filter (\<lambda>t. now - t \<le> DETECTION_WINDOW)
            (flashTimestamps s @ (if generalFlashCondition cl pl then [now] else []));
          reds = filter (\<lambda>t. now - t \<le> DETECTION_WINDOW)
            (redFlashTimestamps s
               @ (if redFlashCondition cr (prevRedSaturation s) cl pl then [now] else []))
      in s\<lparr> flashTimestamps := flashes, redFlashTimestamps := reds,
            totalFlashes := totalFlashes s + (if generalFlashCondition cl pl then 1 else 0),
            maxFlashesPerSecond := max (maxFlashesPerSecond s) (length flashes) \<rparr>)"
  by (simp add: updateWindows_def Let_def)

lemma compareWithPrevious_fields:
  "flashTimestamps (fst (compareWithPrevious cl cr now pl s)) =
     flashTimestamps (updateWindows cl cr now pl s)"
  "redFlashTimestamps (fst (compareWithPrevious cl cr now pl s)) =
     redFlashTimestamps (updateWindows cl cr now pl s)"
  "totalFlashes (fst (compareWithPrevious cl cr now pl s)) =
     totalFlashes (updateWindows cl cr now pl s)"
  "maxFlashesPerSecond (fst (compareWithPrevious cl cr now pl s)) =
     maxFlashesPerSecond (updateWindows cl cr now pl s)"
  "prevLuminance (fst (compareWithPrevious cl cr now pl s)) = prevLuminance s"
  "prevRedSaturation (fst (compareWithPrevious cl cr now pl s)) = prevRedSaturation s"
  "frameCount (fst (compareWithPrevious cl cr now pl s)) = frameCount s"
  "analyzedFrameCount (fst (compareWithPrevious cl cr now pl s)) = analyzedFrameCount s"
  "isAnalyzing (fst (compareWithPrevious cl cr now pl s)) = isAnalyzing s"
  by (simp_all add: compareWithPrevious_def Let_def triggerWarning_fields updateWindows_other)

lemma compareWithPrevious_latched:
  "warningShown s \<Longrightarrow>
     compareWithPrevious cl cr now pl s = (updateWindows cl cr now pl s, None)"
  by (simp add: compareWithPrevious_def Let_def triggerWarning_latched updateWindows_other)

lemma compareWithPrevious_emits:
  "snd (compareWithPrevious cl cr now pl s) = Some w \<Longrightarrow>
     \<not> warningShown s \<and> warningShown (fst (compareWithPrevious cl cr now pl s))
     \<and> paused (video (fst (compareWithPrevious cl cr now pl s)))
     \<and> detail_totalFlashes w = totalFlashes (updateWindows cl cr now pl s)"
  by (auto simp add: compareWithPrevious_def Let_def updateWindows_other
      dest!: triggerWarning_emits split: if_splits)

lemma compareWithPrevious_keeps_latch:
  "warningShown s \<Longrightarrow> warningShown (fst (compareWithPrevious cl cr now pl s))"
  by (simp add: compareWithPrevious_latched updateWindows_other)

text \<open>The warning dispatched by the threshold check.\<close>

lemma compareWithPrevious_warning:
  "snd (compareWithPrevious cl cr now pl s) =
     (let s5 = updateWindows cl cr now pl s in
      if warningShown s then None
      else if length (flashTimestamps s5) \<ge> FLASH_FREQUENCY
      then Some \<lparr> detail_type = General, detail_flashCount = length (flashTimestamps s5),
                   detail_maxFlashesPerSecond = maxFlashesPerSecond s5,
                   detail_totalFlashes = totalFlashes s5,
                   detail_timestamp = currentTime (video s) \<rparr>
      else if length (redFlashTimestamps s5) \<ge> FLASH_FREQUENCY
      then Some \<lparr> detail_type = Red, detail_flashCount = length (redFlashTimestamps s5),
                   detail_maxFlashesPerSecond = maxFlashesPerSecond s5,
                   detail_totalFlashes = totalFlashes s5,
                   detail_timestamp = currentTime (video s) \<rparr>
      else None)"
  by (simp add: compareWithPrevious_def Let_def triggerWarning_def updateWindows_other)

lemma compareWithPrevious_state:
  "fst (compareWithPrevious cl cr now pl s) =
     (let s5 = updateWindows cl cr now pl s
      in if \<not> warningShown s
            \<and> (length (flashTimestamps s5) \<ge> FLASH_FREQUENCY
                \<or> length (redFlashTimestamps s5) \<ge> FLASH_FREQUENCY)
         then s5\<lparr> video := (video s)\<lparr> paused := True \<rparr>, warningShown := True \<rparr>
         else s5)"
  by (simp add: compareWithPrevious_def Let_def triggerWarning_state updateWindows_other)

subsection \<open>The paths through analyzeFrame\<close>

lemma analyzeFrame_not_playing:
  "paused (video s) \<or> ended (video s) \<Longrightarrow> analyzeFrame pow cap now s = (s, None)"
  by (simp add: analyzeFrame_def)

lemma analyzeFrame_skipped:
  "\<not> paused (video s) \<Longrightarrow> \<not> ended (video s) \<Longrightarrow> (frameCount s + 1) mod skipFrames \<noteq> 0 \<Longrightarrow>
     analyzeFrame pow cap now s = (s\<lparr> frameCount := frameCount s + 1 \<rparr>, None)"
  by (simp add: analyzeFrame_def Let_def)

lemma analyzeFrame_captureError:
  "\<not> paused (video s) \<Longrightarrow> \<not> ended (video s) \<Longrightarrow> (frameCount s + 1) mod skipFrames = 0 \<Longrightarrow>
     analyzeFrame pow CaptureError now s = (s\<lparr> frameCount := frameCount s + 1 \<rparr>, None)"
  by (simp add: analyzeFrame_def Let_def)

lemma analyzeFrame_warmup:
  "\<not> paused (video s) \<Longrightarrow> \<not> ended (video s) \<Longrightarrow> (frameCount s + 1) mod skipFrames = 0 \<Longrightarrow>
   analyzedFrameCount s < WARMUP_FRAMES \<Longrightarrow>
     analyzeFrame pow (Captured img) now s =
       (s\<lparr> frameCount := frameCount s + 1, analyzedFrameCount := analyzedFrameCount s + 1,
           prevLuminance := Some (calculateLuminance pow img),
           prevRedSaturation := Some (calculateRedSaturation img) \<rparr>, None)"
  by (simp add: analyzeFrame_def Let_def)

lemma analyzeFrame_dark:
  "\<not> paused (video s) \<Longrightarrow> \<not> ended (video s) \<Longrightarrow> (frameCount s + 1) mod skipFrames = 0 \<Longrightarrow>
   WARMUP_FRAMES \<le> analyzedFrameCount s \<Longrightarrow> darkFrameGuard (calculateLuminance pow img) (prevLuminance s) \<Longrightarrow>
     analyzeFrame pow (Captured img) now s =
       (s\<lparr> frameCount := frameCount s + 1, analyzedFrameCount := analyzedFrameCount s + 1,
           prevLuminance := Some (calculateLuminance pow img),
           prevRedSaturation := Some (calculateRedSaturation img) \<rparr>, None)"
  by (cases "prevLuminance s") (auto simp add: analyzeFrame_def Let_def darkFrameGuard_def)

lemma analyzeFrame_no_previous:
  "\<not> paused (video s) \<Longrightarrow> \<not> ended (video s) \<Longrightarrow> (frameCount s + 1) mod skipFrames = 0 \<Longrightarrow>
   WARMUP_FRAMES \<le> analyzedFrameCount s \<Longrightarrow> \<not> darkFrameGuard (calculateLuminance pow img) (prevLuminance s) \<Longrightarrow> prevLuminance s = None \<Longrightarrow>
     analyzeFrame pow (Captured img) now s =
       (s\<lparr> frameCount := frameCount s + 1, analyzedFrameCount := analyzedFrameCount s + 1,
           prevLuminance := Some (calculateLuminance pow img),
           prevRedSaturation := Some (calculateRedSaturation img) \<rparr>, None)"
  by (simp add: analyzeFrame_def Let_def darkFrameGuard_def)

lemma analyzeFrame_compared:
  "\<not> paused (video s) \<Longrightarrow> \<not> ended (video s) \<Longrightarrow> (frameCount s + 1) mod skipFrames = 0 \<Longrightarrow>
   WARMUP_FRAMES \<le> analyzedFrameCount s \<Longrightarrow> \<not> darkFrameGuard (calculateLuminance pow img) (prevLuminance s) \<Longrightarrow> prevLuminance s = Some pl \<Longrightarrow>
     analyzeFrame pow (Captured img) now s =
       (let r = compareWithPrevious (calculateLuminance pow img) (calculateRedSaturation img) now pl
                  (s\<lparr> frameCount := frameCount s + 1,
                      analyzedFrameCount := analyzedFrameCount s + 1 \<rparr>)
        in ((fst r)\<lparr> prevLuminance := Some (calculateLuminance pow img),
                     prevRedSaturation := Some (calculateRedSaturation img) \<rparr>, snd r))"
  by (simp add: analyzeFrame_def Let_def darkFrameGuard_def split_beta)

subsection \<open>Calls that reach the comparison\<close>

lemma analyzeFrame_compares:
  assumes "compares pow img s"
  shows "analyzeFrame pow (Captured img) now s =
       (let r = compareWithPrevious (calculateLuminance pow img) (calculateRedSaturation img) now
                  (the (prevLuminance s))
                  (s\<lparr> frameCount := frameCount s + 1,
                      analyzedFrameCount := analyzedFrameCount s + 1 \<rparr>)
        in ((fst r)\<lparr> prevLuminance := Some (calculateLuminance pow img),
                     prevRedSaturation := Some (calculateRedSaturation img) \<rparr>, snd r))"
proof -
  from assms obtain pl where pl: "prevLuminance s = Some pl"
    by (auto simp add: compares_def)
  from assms have "WARMUP_FRAMES \<le> analyzedFrameCount s"
    by (simp add: compares_def)
  with assms pl show ?thesis
    using analyzeFrame_compared [of s pow img pl now] by (simp add: compares_def)
qed

lemma compares_fields:
  assumes "compares pow img s"
  shows "flashTimestamps (fst (analyzeFrame pow (Captured img) now s)) =
           filter (\<lambda>t. now - t \<le> DETECTION_WINDOW)
             (flashTimestamps s
                @ (if generalFlashCondition (calculateLuminance pow img) (the (prevLuminance s))
                   then [now] else []))"
    and "redFlashTimestamps (fst (analyzeFrame pow (Captured img) now s)) =
           filter (\<lambda>t. now - t \<le> DETECTION_WINDOW)
             (redFlashTimestamps s
                @ (if redFlashCondition (calculateRedSaturation img) (prevRedSaturation s)
                        (calculateLuminance pow img) (the (prevLuminance s))
                   then [now] else []))"
    and "totalFlashes (fst (analyzeFrame pow (Captured img) now s)) =
           totalFlashes s
             + (if generalFlashCondition (calculateLuminance pow img) (the (prevLuminance s))
                then 1 else 0)"
    and "maxFlashesPerSecond (fst (analyzeFrame pow (Captured img) now s)) =
           max (maxFlashesPerSecond s)
             (length (flashTimestamps (fst (analyzeFrame pow (Captured img) now s))))"
    and "prevLuminance (fst (analyzeFrame pow (Captured img) now s)) = Some (calculateLuminance pow img)"
    and "prevRedSaturation (fst (analyzeFrame pow (Captured img) now s)) =
           Some (calculateRedSaturation img)"
    and "frameCount (fst (analyzeFrame pow (Captured img) now s)) = frameCount s + 1"
    and "analyzedFrameCount (fst (analyzeFrame pow (Captured img) now s)) = analyzedFrameCount s + 1"
  by (simp_all add: analyzeFrame_compares [OF assms] Let_def compareWithPrevious_fields
      updateWindows_flashTimestamps updateWindows_redFlashTimestamps updateWindows_totalFlashes
      updateWindows_maxFlashesPerSecond)

lemma compares_warning:
  assumes "compares pow img s"
  shows "snd (analyzeFrame pow (Captured img) now s) =
     (if warningShown s then None
      else if length (flashTimestamps (fst (analyzeFrame pow (Captured img) now s))) \<ge> FLASH_FREQUENCY
      then Some \<lparr> detail_type = General,
                   detail_flashCount = length (flashTimestamps (fst (analyzeFrame pow (Captured img) now s))),
                   detail_maxFlashesPerSecond = maxFlashesPerSecond (fst (analyzeFrame pow (Captured img) now s)),
                   detail_totalFlashes = totalFlashes (fst (analyzeFrame pow (Captured img) now s)),
                   detail_timestamp = currentTime (video s) \<rparr>
      else if length (redFlashTimestamps (fst (analyzeFrame pow (Captured img) now s))) \<ge> FLASH_FREQUENCY
      then Some \<lparr> detail_type = Red,
                   detail_flashCount = length (redFlashTimestamps (fst (analyzeFrame pow (Captured img) now s))),
                   detail_maxFlashesPerSecond = maxFlashesPerSecond (fst (analyzeFrame pow (Captured img) now s)),
                   detail_totalFlashes = totalFlashes (fst (analyzeFrame pow (Captured img) now s)),
                   detail_timestamp = currentTime (video s) \<rparr>
      else None)"
  by (simp add: analyzeFrame_compares [OF assms] Let_def compareWithPrevious_fields
      compareWithPrevious_warning)

lemma compares_latch:
  assumes "compares pow img s"
  shows "warningShown s \<Longrightarrow> warningShown (fst (analyzeFrame pow (Captured img) now s))"
    and "snd (analyzeFrame pow (Captured img) now s) = Some w \<Longrightarrow>
           \<not> warningShown s \<and> warningShown (fst (analyzeFrame pow (Captured img) now s))
           \<and> paused (video (fst (analyzeFrame pow (Captured img) now s)))"
  by (auto simp add: analyzeFrame_compares [OF assms] Let_def compareWithPrevious_keeps_latch
      dest: compareWithPrevious_emits)

subsection \<open>Calls that do not reach the comparison\<close>

lemma not_compares_dark:
  assumes "\<not> paused (video s)" "\<not> ended (video s)" "(frameCount s + 1) mod skipFrames = 0"
    and "WARMUP_FRAMES \<le> analyzedFrameCount s"
    and "darkFrameGuard (calculateLuminance pow img) (prevLuminance s)"
  shows "flashTimestamps (fst (analyzeFrame pow (Captured img) now s)) = flashTimestamps s"
    and "redFlashTimestamps (fst (analyzeFrame pow (Captured img) now s)) = redFlashTimestamps s"
    and "totalFlashes (fst (analyzeFrame pow (Captured img) now s)) = totalFlashes s"
    and "snd (analyzeFrame pow (Captured img) now s) = None"
  using assms by (simp_all add: analyzeFrame_dark)

lemma not_compares_unchanged:
  assumes "\<not> compares pow img s"
  shows "flashTimestamps (fst (analyzeFrame pow (Captured img) now s)) = flashTimestamps s"
    and "redFlashTimestamps (fst (analyzeFrame pow (Captured img) now s)) = redFlashTimestamps s"
    and "totalFlashes (fst (analyzeFrame pow (Captured img) now s)) = totalFlashes s"
    and "maxFlashesPerSecond (fst (analyzeFrame pow (Captured img) now s)) = maxFlashesPerSecond s"
    and "warningShown (fst (analyzeFrame pow (Captured img) now s)) = warningShown s"
    and "snd (analyzeFrame pow (Captured img) now s) = None"
  using assms
  by (auto simp add: analyzeFrame_def compares_def Let_def split: option.splits)

lemma captureError_unchanged:
  "flashTimestamps (fst (analyzeFrame pow CaptureError now s)) = flashTimestamps s"
  "redFlashTimestamps (fst (analyzeFrame pow CaptureError now s)) = redFlashTimestamps s"
  "totalFlashes (fst (analyzeFrame pow CaptureError now s)) = totalFlashes s"
  "maxFlashesPerSecond (fst (analyzeFrame pow CaptureError now s)) = maxFlashesPerSecond s"
  "warningShown (fst (analyzeFrame pow CaptureError now s)) = warningShown s"
  "analyzedFrameCount (fst (analyzeFrame pow CaptureError now s)) = analyzedFrameCount s"
  "snd (analyzeFrame pow CaptureError now s) = None"
  by (simp_all add: analyzeFrame_def Let_def)

lemma analyzeFrame_keeps_latch:
  "warningShown s \<Longrightarrow> warningShown (fst (analyzeFrame pow cap now s))"
proof (cases cap)
  case CaptureError
  then show "warningShown s \<Longrightarrow> ?thesis" by (simp add: captureError_unchanged)
next
  case (Captured img)
  then show "warningShown s \<Longrightarrow> ?thesis"
    by (cases "compares pow img s") (simp_all add: compares_latch not_compares_unchanged)
qed

lemma analyzeFrame_emits:
  assumes "snd (analyzeFrame pow cap now s) = Some w"
  shows "\<not> warningShown s" "warningShown (fst (analyzeFrame pow cap now s))"
    "paused (video (fst (analyzeFrame pow cap now s)))"
    "detail_totalFlashes w = totalFlashes (fst (analyzeFrame pow cap now s))"
proof -
  from assms obtain img where cap: "cap = Captured img"
    by (cases cap) (simp_all add: captureError_unchanged)
  with assms have c: "compares pow img s"
    by (cases "compares pow img s") (simp_all add: not_compares_unchanged)
  from assms show "\<not> warningShown s" "warningShown (fst (analyzeFrame pow cap now s))"
    "paused (video (fst (analyzeFrame pow cap now s)))"
    using compares_latch(2) [OF c] by (simp_all add: cap)
  from assms show "detail_totalFlashes w = totalFlashes (fst (analyzeFrame pow cap now s))"
    by (auto simp add: cap compares_warning [OF c] split: if_splits)
qed

lemma analyzeFrame_frameCount:
  "\<not> paused (video s) \<Longrightarrow> \<not> ended (video s) \<Longrightarrow>
     frameCount (fst (analyzeFrame pow cap now s)) = frameCount s + 1"
  by (auto simp add: analyzeFrame_def Let_def split_beta compareWithPrevious_fields
      split: capture.splits option.splits)

lemma analyzeFrame_analyzedFrameCount:
  "\<not> paused (video s) \<Longrightarrow> \<not> ended (video s) \<Longrightarrow>
     analyzedFrameCount (fst (analyzeFrame pow (Captured img) now s)) =
       (if (frameCount s + 1) mod skipFrames = 0 then analyzedFrameCount s + 1
        else analyzedFrameCount s)"
  by (auto simp add: analyzeFrame_def Let_def split_beta compareWithPrevious_fields
      split: option.splits)

lemma analyzeFrame_analyzedFrameCount_mono:
  "analyzedFrameCount s \<le> analyzedFrameCount (fst (analyzeFrame pow cap now s))"
  by (auto simp add: analyzeFrame_def Let_def split_beta compareWithPrevious_fields
      split: capture.splits option.splits)

lemma analyzeFrame_in_warmup:
  assumes "analyzedFrameCount (fst (analyzeFrame pow cap now s)) \<le> WARMUP_FRAMES"
  shows "snd (analyzeFrame pow cap now s) = None"
    and "flashTimestamps (fst (analyzeFrame pow cap now s)) = flashTimestamps s"
    and "redFlashTimestamps (fst (analyzeFrame pow cap now s)) = redFlashTimestamps s"
    and "totalFlashes (fst (analyzeFrame pow cap now s)) = totalFlashes s"
    and "maxFlashesPerSecond (fst (analyzeFrame pow cap now s)) = maxFlashesPerSecond s"
proof -
  have "\<not> reachesComparison pow cap s"
  proof
    assume "reachesComparison pow cap s"
    then obtain img where cap: "cap = Captured img" and c: "compares pow img s"
      by (cases cap) (simp_all add: reachesComparison_def)
    from c have "WARMUP_FRAMES < analyzedFrameCount s + 1"
      by (simp add: compares_def)
    with assms show False
      by (simp add: cap compares_fields [OF c])
  qed
  then show "snd (analyzeFrame pow cap now s) = None"
    and "flashTimestamps (fst (analyzeFrame pow cap now s)) = flashTimestamps s"
    and "redFlashTimestamps (fst (analyzeFrame pow cap now s)) = redFlashTimestamps s"
    and "totalFlashes (fst (analyzeFrame pow cap now s)) = totalFlashes s"
    and "maxFlashesPerSecond (fst (analyzeFrame pow cap now s)) = maxFlashesPerSecond s"
    by (cases cap; simp add: reachesComparison_def captureError_unchanged not_compares_unchanged)+
qed

subsection \<open>Sessions\<close>

lemma run_append:
  "run pow (xs @ ys) s = (fst (run pow ys (fst (run pow xs s))), snd (run pow xs s) @ snd (run pow ys (fst (run pow xs s))))"
  by (induction xs arbitrary: s) (simp_all add: split_beta)

lemma step_keeps_latch:
  "\<not> clearsLatch e \<Longrightarrow> warningShown s \<Longrightarrow> warningShown (fst (step pow e s))"
  by (cases e) (simp_all add: analyzeFrame_keeps_latch stop_def resetDetectionState_def)

lemma step_emits:
  "\<not> clearsLatch e \<Longrightarrow> snd (step pow e s) = Some w \<Longrightarrow>
     \<not> warningShown s \<and> warningShown (fst (step pow e s))"
  by (cases e) (auto dest: analyzeFrame_emits)

lemma run_latched:
  "\<forall>e\<in>set es. \<not> clearsLatch e \<Longrightarrow> warningShown s \<Longrightarrow>
     snd (run pow es s) = [] \<and> warningShown (fst (run pow es s))"
proof (induction es arbitrary: s)
  case Nil
  then show ?case by simp
next
  case (Cons e es)
  from Cons.prems have e: "\<not> clearsLatch e" and es: "\<forall>e\<in>set es. \<not> clearsLatch e"
    by simp_all
  have latched: "warningShown (fst (step pow e s))"
    using e Cons.prems(2) by (rule step_keeps_latch)
  have none: "snd (step pow e s) = None"
  proof (cases "snd (step pow e s)")
    case None
    then show ?thesis .
  next
    case (Some w)
    with step_emits [OF e Some] Cons.prems(2) show ?thesis by simp
  qed
  from Cons.IH [OF es latched] none show ?case
    by (simp add: split_beta)
qed

lemma run_not_playing:
  "paused (video s) \<or> ended (video s) \<Longrightarrow>
     run pow (frameCalls frames) s = (s, [])"
  by (induction frames) (auto simp add: frameCalls_def analyzeFrame_not_playing)

lemma run_frames_analyzedFrameCount_mono:
  "analyzedFrameCount s
     \<le> analyzedFrameCount (fst (run pow (frameCalls frames) s))"
proof (induction frames arbitrary: s)
  case Nil
  show ?case by (simp add: frameCalls_def)
next
  case (Cons f frames)
  obtain cap now where f: "f = (cap, now)" by (cases f)
  have "analyzedFrameCount s \<le> analyzedFrameCount (fst (analyzeFrame pow cap now s))"
    by (rule analyzeFrame_analyzedFrameCount_mono)
  also have "\<dots> \<le> analyzedFrameCount
      (fst (run pow (frameCalls frames) (fst (analyzeFrame pow cap now s))))"
    by (rule Cons.IH)
  finally show ?case by (simp add: f frameCalls_def split_beta)
qed

lemma run_in_warmup:
  "analyzedFrameCount (fst (run pow (frameCalls frames) s))
     \<le> WARMUP_FRAMES \<Longrightarrow>
   snd (run pow (frameCalls frames) s) = []
   \<and> flashTimestamps (fst (run pow (frameCalls frames) s))
       = flashTimestamps s
   \<and> redFlashTimestamps (fst (run pow (frameCalls frames) s))
       = redFlashTimestamps s
   \<and> totalFlashes (fst (run pow (frameCalls frames) s))
       = totalFlashes s
   \<and> maxFlashesPerSecond (fst (run pow (frameCalls frames) s))
       = maxFlashesPerSecond s"
proof (induction frames arbitrary: s)
  case Nil
  show ?case by (simp add: frameCalls_def)
next
  case (Cons f frames)
  obtain cap now where f: "f = (cap, now)" by (cases f)
  let ?s1 = "fst (analyzeFrame pow cap now s)"
  from Cons.prems have fin: "analyzedFrameCount
      (fst (run pow (frameCalls frames) ?s1)) \<le> WARMUP_FRAMES"
    by (simp add: f frameCalls_def split_beta)
  with run_frames_analyzedFrameCount_mono [of ?s1 pow frames]
  have "analyzedFrameCount ?s1 \<le> WARMUP_FRAMES" by simp
  note one = analyzeFrame_in_warmup [OF this]
  from Cons.IH [OF fin] one show ?case
    by (simp add: f frameCalls_def split_beta)
qed

lemma run_start_in_warmup:
  assumes "\<not> isAnalyzing s"
    and "analyzedFrameCount (fst (run pow (CallStart cap now # frameCalls frames) s)) \<le> WARMUP_FRAMES"
  shows "snd (run pow (CallStart cap now # frameCalls frames) s) = []
     \<and> flashTimestamps (fst (run pow (CallStart cap now # frameCalls frames) s)) = []
     \<and> redFlashTimestamps (fst (run pow (CallStart cap now # frameCalls frames) s)) = []
     \<and> totalFlashes (fst (run pow (CallStart cap now # frameCalls frames) s)) = 0"
proof -
  let ?s0 = "resetDetectionState
      (s\<lparr> isAnalyzing := True, warningShown := False, totalFlashes := 0,
          maxFlashesPerSecond := 0 \<rparr>)"
  have eq: "run pow (CallStart cap now # frameCalls frames) s = run pow (frameCalls ((cap, now) # frames)) ?s0"
    using assms(1) by (simp add: start_def frameCalls_def)
  from assms(2) have "analyzedFrameCount (fst (run pow (frameCalls ((cap, now) # frames)) ?s0))
      \<le> WARMUP_FRAMES"
    by (simp only: eq)
  from run_in_warmup [OF this] show ?thesis
    by (simp only: eq) (simp add: resetDetectionState_def)
qed

lemma run_two_warmup_calls:
  assumes "\<not> paused (video s)" "\<not> ended (video s)" "frameCount s mod 2 = 0"
    "analyzedFrameCount s < WARMUP_FRAMES"
  shows "run pow [CallAnalyzeFrame cap now, CallAnalyzeFrame (Captured img) now'] s =
     (s\<lparr> frameCount := frameCount s + 2, analyzedFrameCount := analyzedFrameCount s + 1,
         prevLuminance := Some (calculateLuminance pow img),
         prevRedSaturation := Some (calculateRedSaturation img) \<rparr>, [])"
proof -
  from assms(3) have odd: "(frameCount s + 1) mod skipFrames \<noteq> 0"
    unfolding skipFrames_def by presburger
  from assms(3) have even: "(frameCount s + 1 + 1) mod skipFrames = 0"
    unfolding skipFrames_def by presburger
  have 1: "analyzeFrame pow cap now s = (s\<lparr> frameCount := frameCount s + 1 \<rparr>, None)"
    using assms(1,2) odd by (rule analyzeFrame_skipped)
  have 2: "analyzeFrame pow (Captured img) now' (s\<lparr> frameCount := frameCount s + 1 \<rparr>) =
      (s\<lparr> frameCount := frameCount s + 2, analyzedFrameCount := analyzedFrameCount s + 1,
         prevLuminance := Some (calculateLuminance pow img),
         prevRedSaturation := Some (calculateRedSaturation img) \<rparr>, None)"
    using assms(1,2,4) even
      analyzeFrame_warmup [of "s\<lparr> frameCount := frameCount s + 1 \<rparr>" pow img now']
    by simp
  show ?thesis using 1 2 by simp
qed

lemma run_warmup_calls:
  assumes "\<not> paused (video s)" "\<not> ended (video s)" "frameCount s mod 2 = 0"
    "analyzedFrameCount s + n \<le> WARMUP_FRAMES" "0 < n"
  shows "run pow (concat (replicate n [CallAnalyzeFrame cap now, CallAnalyzeFrame (Captured img) now'])) s =
     (s\<lparr> frameCount := frameCount s + 2 * n, analyzedFrameCount := analyzedFrameCount s + n,
         prevLuminance := Some (calculateLuminance pow img),
         prevRedSaturation := Some (calculateRedSaturation img) \<rparr>, [])"
  using assms
proof (induction n arbitrary: s)
  case 0
  then show ?case by simp
next
  case (Suc n)
  let ?s1 = "s\<lparr> frameCount := frameCount s + 2, analyzedFrameCount := analyzedFrameCount s + 1,
         prevLuminance := Some (calculateLuminance pow img),
         prevRedSaturation := Some (calculateRedSaturation img) \<rparr>"
  from Suc.prems have lt: "analyzedFrameCount s < WARMUP_FRAMES" by simp
  have first: "run pow [CallAnalyzeFrame cap now, CallAnalyzeFrame (Captured img) now'] s = (?s1, [])"
    using Suc.prems(1,2,3) lt by (rule run_two_warmup_calls)
  show ?case
  proof (cases "n = 0")
    case True
    then show ?thesis using first by simp
  next
    case False
    have "run pow (concat (replicate n [CallAnalyzeFrame cap now, CallAnalyzeFrame (Captured img) now'])) ?s1 =
      (?s1\<lparr> frameCount := frameCount ?s1 + 2 * n, analyzedFrameCount := analyzedFrameCount ?s1 + n,
         prevLuminance := Some (calculateLuminance pow img),
         prevRedSaturation := Some (calculateRedSaturation img) \<rparr>, [])"
      using Suc.prems False by (intro Suc.IH) simp_all
    then show ?thesis
      using first
      by (simp only: replicate_Suc concat.simps run_append) simp
  qed
qed

subsection \<open>The number of analysed frames\<close>

text \<open>
  A call of \<open>analyzeFrame\<close> increments \<open>analyzedFrameCount\<close> exactly when it analyses its
  frame, so over a sequence of calls the counter grows by the number of analysed frames.
\<close>

lemma analyzeFrame_counts:
  "analyzedFrameCount (fst (analyzeFrame pow cap now s)) =
     analyzedFrameCount s + (if admitted cap s then 1 else 0)"
  by (auto simp add: analyzeFrame_def admitted_def Let_def split_beta compareWithPrevious_fields
      split: capture.splits option.splits)

lemma run_frames_counts:
  "analyzedFrameCount (fst (run pow (frameCalls frames) s)) =
     analyzedFrameCount s + analysedFrames pow (frameCalls frames) s"
proof (induction frames arbitrary: s)
  case Nil
  show ?case by (simp add: frameCalls_def)
next
  case (Cons f frames)
  obtain cap now where f: "f = (cap, now)" by (cases f)
  from Cons.IH [of "fst (analyzeFrame pow cap now s)"] show ?case
    by (simp add: f frameCalls_def split_beta analyzeFrame_counts)
qed

lemma start_not_analysing:
  "\<not> isAnalyzing s \<Longrightarrow>
     run pow (CallStart cap now # frameCalls frames) s =
       run pow (frameCalls ((cap, now) # frames))
         (resetDetectionState
            (s\<lparr> isAnalyzing := True, warningShown := False, totalFlashes := 0,
                maxFlashesPerSecond := 0 \<rparr>))"
  "\<not> isAnalyzing s \<Longrightarrow>
     analysedFrames pow (CallStart cap now # frameCalls frames) s =
       analysedFrames pow (frameCalls ((cap, now) # frames))
         (resetDetectionState
            (s\<lparr> isAnalyzing := True, warningShown := False, totalFlashes := 0,
                maxFlashesPerSecond := 0 \<rparr>))"
  by (simp_all add: start_def frameCalls_def admitted_def resetDetectionState_def)

lemma run_start_counts:
  assumes "\<not> isAnalyzing s"
  shows "analyzedFrameCount (fst (run pow (CallStart cap now # frameCalls frames) s)) =
     analysedFrames pow (CallStart cap now # frameCalls frames) s"
  by (simp only: start_not_analysing [OF assms] run_frames_counts)
     (simp add: resetDetectionState_def)

subsection \<open>The concrete states are reachable\<close>

text \<open>
  \<open>start\<close> on a new detector followed by twenty further calls, all with the frame \<open>img\<close>:
  ten frames are analysed, all within the warmup.
\<close>

lemma warmedUp_reachable:
  "run roundedPow (warmupSession img) (constructor playing) = (warmedUp img [] [] False 21, [])"
proof -
  let ?s1 = "(constructor playing)\<lparr> isAnalyzing := True, frameCount := 1 \<rparr>"
  let ?s2 = "?s1\<lparr> frameCount := 2, analyzedFrameCount := 1,
      prevLuminance := Some (calculateLuminance roundedPow img),
      prevRedSaturation := Some (calculateRedSaturation img) \<rparr>"
  let ?s3 = "?s2\<lparr> frameCount := 20, analyzedFrameCount := 10 \<rparr>"
  have 1: "start roundedPow (Captured img) 0 (constructor playing) = (?s1, None)"
    by (simp add: start_def resetDetectionState_def constructor_def playing_def
        analyzeFrame_skipped skipFrames_def)
  have 2: "analyzeFrame roundedPow (Captured img) 16 ?s1 = (?s2, None)"
    using analyzeFrame_warmup [where s = ?s1 and img = img and now = 16 and pow = roundedPow]
    by (simp add: constructor_def playing_def skipFrames_def WARMUP_FRAMES_def)
  have r12: "run roundedPow [CallStart (Captured img) 0, CallAnalyzeFrame (Captured img) 16]
      (constructor playing) = (?s2, [])"
    using 1 2 by simp
  have r3: "run roundedPow (concat (replicate 9 [CallAnalyzeFrame (Captured img) 33,
      CallAnalyzeFrame (Captured img) 50])) ?s2 = (?s3, [])"
    using run_warmup_calls [where s = ?s2 and n = 9 and pow = roundedPow and cap = "Captured img"
        and now = 33 and img = img and now' = 50]
    by (simp add: constructor_def playing_def WARMUP_FRAMES_def)
  have r4: "run roundedPow [CallAnalyzeFrame (Captured img) 66] ?s3 = (warmedUp img [] [] False 21, [])"
    using analyzeFrame_skipped [where s = ?s3 and cap = "Captured img" and now = 66 and pow = roundedPow]
    by (simp add: constructor_def playing_def skipFrames_def warmedUp_def)
  have "warmupSession img =
      [CallStart (Captured img) 0, CallAnalyzeFrame (Captured img) 16]
      @ concat (replicate 9 [CallAnalyzeFrame (Captured img) 33, CallAnalyzeFrame (Captured img) 50])
      @ [CallAnalyzeFrame (Captured img) 66]"
    by (simp add: warmupSession_def)
  then show ?thesis
    by (simp only: run_append r12 r3 r4 fst_conv snd_conv append_Nil)
qed

lemmas session_simps =
  analyzeFrame_skipped analyzeFrame_dark analyzeFrame_compares compares_def
  compareWithPrevious_state compareWithPrevious_warning updateWindows_state Let_def
  warmedUp_def playing_def frame_metrics skipFrames_def WARMUP_FRAMES_def FLASH_FREQUENCY_def
  DETECTION_WINDOW_def darkFrameGuard_Num generalFlashCondition_Num redFlashCondition_Num
  binary64_simps

text \<open>Sessions that continue after the warmup, on frames whose metrics are known.\<close>

lemma two_red_flashes_reachable:
  "run roundedPow [CallAnalyzeFrame (Captured redFrame) 4600, CallAnalyzeFrame (Captured redFrame) 4616,
        CallAnalyzeFrame (Captured greyFrame) 4800, CallAnalyzeFrame (Captured greyFrame) 4816]
     (warmedUp greyFrame [] [] False 21) = (warmedUp greyFrame [] [4600, 4800] False 25, [])"
  by (simp add: session_simps)

lemma two_flashes_of_both_kinds_reachable:
  "run roundedPow [CallAnalyzeFrame (Captured redFrame) 4600, CallAnalyzeFrame (Captured redFrame) 4616,
        CallAnalyzeFrame (Captured whiteFrame) 4800, CallAnalyzeFrame (Captured whiteFrame) 4816]
     (warmedUp whiteFrame [] [] False 21) =
     (warmedUp whiteFrame [4600, 4800] [4600, 4800] False 25, [])"
  by (simp add: session_simps)

lemma one_flash_of_both_kinds_reachable:
  "run roundedPow [CallAnalyzeFrame (Captured whiteFrame) 1000] (warmedUp redFrame [] [] False 21) =
     (warmedUp whiteFrame [1000] [1000] False 22, [])"
  "run roundedPow [CallAnalyzeFrame (Captured whiteFrame) 1000, CallAnalyzeFrame (Captured whiteFrame) 1016]
     (warmedUp redFrame [] [] False 21) =
     (warmedUp whiteFrame [1000] [1000] False 23, [])"
  by (simp_all add: session_simps)

text \<open>
  Three general flashes within a second dispatch the warning and pause the video; then the
  video is played again, without \<open>start\<close> or \<open>resetWarning\<close> having been called.
\<close>

lemma latched_playing_reachable:
  "run roundedPow [CallAnalyzeFrame (Captured whiteFrame) 1000, CallAnalyzeFrame (Captured whiteFrame) 1016,
        CallAnalyzeFrame (Captured greyFrame) 1100, CallAnalyzeFrame (Captured greyFrame) 1116,
        CallAnalyzeFrame (Captured whiteFrame) 1200, VideoChanged playing,
        CallAnalyzeFrame (Captured whiteFrame) 1216]
     (warmedUp greyFrame [] [] False 21) =
     (warmedUp whiteFrame [1000, 1100, 1200] [] True 27,
      [\<lparr> detail_type = General, detail_flashCount = 3, detail_maxFlashesPerSecond = 3,
         detail_totalFlashes = 3, detail_timestamp = 12 \<rparr>])"
  by (simp add: session_simps)

text \<open>
  Each of these sessions can follow the warmup session of a new detector, so the states
  they end in are reached from \<open>constructor playing\<close>.
\<close>

lemma after_warmup_reachable:
  "run roundedPow es (warmedUp img [] [] False 21) = r \<Longrightarrow>
     run roundedPow (warmupSession img @ es) (constructor playing) = r"
  by (simp add: run_append warmedUp_reachable)

lemma latched_playing_from_new_detector:
  "fst (run roundedPow (warmupSession greyFrame
              @ [CallAnalyzeFrame (Captured whiteFrame) 1000,
                 CallAnalyzeFrame (Captured whiteFrame) 1016,
                 CallAnalyzeFrame (Captured greyFrame) 1100,
                 CallAnalyzeFrame (Captured greyFrame) 1116,
                 CallAnalyzeFrame (Captured whiteFrame) 1200, VideoChanged playing,
                 CallAnalyzeFrame (Captured whiteFrame) 1216])
         (constructor playing))
     = warmedUp whiteFrame [1000, 1100, 1200] [] True 27"
  by (simp add: after_warmup_reachable [OF latched_playing_reachable])

text \<open>
  Three red flashes within a second, none of them a general flash: the warning has type
  \<open>Red\<close> and carries \<open>totalFlashes = 0\<close>.
\<close>

lemma red_warning_example:
  "snd (analyzeFrame roundedPow (Captured redFrame) 5000 (warmedUp greyFrame [] [4600, 4800] False 25)) =
     Some \<lparr> detail_type = Red, detail_flashCount = 3, detail_maxFlashesPerSecond = 0,
            detail_totalFlashes = 0, detail_timestamp = 12 \<rparr>"
proof -
  let ?s = "warmedUp greyFrame [] [4600, 4800] False 25"
  have c: "compares roundedPow redFrame ?s"
    by (simp add: compares_def warmedUp_def playing_def frame_metrics skipFrames_def
        WARMUP_FRAMES_def darkFrameGuard_Num binary64_simps)
  have g: "flashTimestamps (fst (analyzeFrame roundedPow (Captured redFrame) 5000 ?s)) = []"
    by (simp add: compares_fields [OF c]) (simp add: warmedUp_def frame_metrics generalFlashCondition_Num binary64_simps)
  have r: "redFlashTimestamps (fst (analyzeFrame roundedPow (Captured redFrame) 5000 ?s)) = [4600, 4800, 5000]"
    by (simp add: compares_fields [OF c])
       (simp add: warmedUp_def frame_metrics redFlashCondition_Num DETECTION_WINDOW_def
         binary64_simps)
  have t: "totalFlashes (fst (analyzeFrame roundedPow (Captured redFrame) 5000 ?s)) = 0"
    by (simp add: compares_fields [OF c]) (simp add: warmedUp_def frame_metrics generalFlashCondition_Num binary64_simps)
  have m: "maxFlashesPerSecond (fst (analyzeFrame roundedPow (Captured redFrame) 5000 ?s)) = 0"
    by (simp add: compares_fields(4) [OF c] g) (simp add: warmedUp_def)
  show ?thesis
    by (simp add: compares_warning [OF c] g r t m FLASH_FREQUENCY_def)
       (simp add: warmedUp_def playing_def)
qed

subsection \<open>The stride of the analysis\<close>

lemma stride_parity:
  assumes "\<not> paused (video s)" "\<not> ended (video s)"
  shows "frameCount (fst (analyzeFrame pow (Captured img) now s)) = frameCount s + 1
         \<and> (analyzedFrameCount (fst (analyzeFrame pow (Captured img) now s)) = analyzedFrameCount s + 1
              \<longleftrightarrow> even (frameCount s + 1))
         \<and> (odd (frameCount s + 1) \<longrightarrow>
              analyzeFrame pow (Captured img) now s = (s\<lparr> frameCount := frameCount s + 1 \<rparr>, None))"
proof -
  have "odd (frameCount s + 1) \<Longrightarrow> (frameCount s + 1) mod skipFrames \<noteq> 0"
    unfolding skipFrames_def by presburger
  moreover have "even (frameCount s + 1) \<longleftrightarrow> (frameCount s + 1) mod skipFrames = 0"
    unfolding skipFrames_def by presburger
  ultimately show ?thesis
    using assms
    by (simp add: analyzeFrame_frameCount analyzeFrame_analyzedFrameCount analyzeFrame_skipped)
qed

section \<open>The claims\<close>

text \<open>
  C1 (as the code behaves). For a frame that is analysed after the warmup, with finite
  luminance \<open>c\<close> and previous luminance \<open>p\<close>, let \<open>d\<close> be the difference \<open>c - p\<close> as the code
  computes it, rounded to binary64. The timestamp is appended to the general window and
  \<open>totalFlashes\<close> is incremented if and only if both luminances are strictly greater than
  the literal 0.05 (\<open>bothFramesBright\<close>), the rounded quotient \<open>|d| / max(p, 0.01)\<close> is
  greater than the literal 0.1, and \<open>|d|\<close> is greater than the literal 0.05. Otherwise
  \<open>totalFlashes\<close> is unchanged and nothing is added to the window; in particular nothing is
  recorded when the deltas are below their thresholds.
\<close>

theorem general_flash_recorded_iff:
  assumes playing: "\<not> paused (video s)" "\<not> ended (video s)"
    and admitted: "(frameCount s + 1) mod skipFrames = 0"
    and warm: "WARMUP_FRAMES \<le> analyzedFrameCount s"
    and prev: "prevLuminance s = Some (Num p)"
    and cur: "calculateLuminance pow img = Num c"
  shows "((flashTimestamps (fst (analyzeFrame pow (Captured img) now s)) =
             filter (\<lambda>t. now - t \<le> DETECTION_WINDOW) (flashTimestamps s) @ [now]
           \<and> totalFlashes (fst (analyzeFrame pow (Captured img) now s)) = totalFlashes s + 1)
          \<longleftrightarrow> (c > binary64 0.05 \<and> p > binary64 0.05
               \<and> binary64 (\<bar>binary64 (c - p)\<bar> / max p (binary64 0.01)) > binary64 0.1
               \<and> \<bar>binary64 (c - p)\<bar> > binary64 0.05))
         \<and> (\<not> (c > binary64 0.05 \<and> p > binary64 0.05
                 \<and> binary64 (\<bar>binary64 (c - p)\<bar> / max p (binary64 0.01)) > binary64 0.1
                 \<and> \<bar>binary64 (c - p)\<bar> > binary64 0.05)
              \<longrightarrow> totalFlashes (fst (analyzeFrame pow (Captured img) now s)) = totalFlashes s
                \<and> set (flashTimestamps (fst (analyzeFrame pow (Captured img) now s)))
                     \<subseteq> set (flashTimestamps s))"
proof (cases "c < binary64 0.05 \<or> p < binary64 0.05")
  case True
  then have dark: "darkFrameGuard (calculateLuminance pow img) (prevLuminance s)"
    by (simp add: prev cur darkFrameGuard_Num)
  from True have "\<not> (c > binary64 0.05 \<and> p > binary64 0.05)" by auto
  then show ?thesis
    by (auto simp add: not_compares_dark [OF playing admitted warm dark])
next
  case False
  then have "compares pow img s"
    using playing admitted warm by (simp add: compares_def prev cur darkFrameGuard_Num)
  then show ?thesis
    by (auto simp add: compares_fields prev cur generalFlashCondition_Num DETECTION_WINDOW_def)
qed

text \<open>
  C1, witness: after a warmup that ended on a frame with seven of twenty sampled pixels
  white (luminance \<open>binary64 (7 / 20)\<close>), a frame with eight of twenty white (luminance
  \<open>binary64 (8 / 20)\<close>) is recorded as a general flash: the difference of the two
  luminances is greater than the literal 0.05. A white frame after a white frame is not
  recorded.
\<close>

theorem general_flash_recorded_iff_witness:
  "flashTimestamps (fst (analyzeFrame roundedPow (Captured eightFrame) 5000
                           (warmedUp sevenFrame [] [] False 21))) = [5000]
   \<and> totalFlashes (fst (analyzeFrame roundedPow (Captured eightFrame) 5000
                           (warmedUp sevenFrame [] [] False 21))) = 1
   \<and> totalFlashes (fst (analyzeFrame roundedPow (Captured whiteFrame) 5000
                           (warmedUp whiteFrame [] [] False 21))) = 0"
  using
    general_flash_recorded_iff [where s = "warmedUp sevenFrame [] [] False 21"
      and p = "3152519739159347 / 9007199254740992" and pow = roundedPow and img = eightFrame
      and c = "3602879701896397 / 9007199254740992" and now = 5000]
    general_flash_recorded_iff [where s = "warmedUp whiteFrame [] [] False 21"
      and p = 1 and pow = roundedPow and img = whiteFrame and c = 1 and now = 5000]
  by (simp add: warmedUp_def playing_def frame_metrics skipFrames_def WARMUP_FRAMES_def
      binary64_simps)

text \<open>
  C1 (as stated) fails when a luminance equals the literal 0.05: the previous frame has
  that luminance and the current one luminance 1, so the dark-frame guard does not trigger
  and both deltas exceed their thresholds, as the code computes them and as exact
  quotients, yet nothing is recorded.
\<close>

theorem general_flash_boundary_counterexample:
  "calculateLuminance roundedPow whiteFrame = Num 1
   \<and> prevLuminance (warmedUp dimFrame [] [] False 21) = Some (Num (binary64 0.05))
   \<and> \<not> darkFrameGuard (Num 1) (Some (Num (binary64 0.05)))
   \<and> binary64 (\<bar>binary64 (1 - binary64 0.05)\<bar> / max (binary64 0.05) (binary64 0.01))
       > binary64 0.1
   \<and> \<bar>binary64 (1 - binary64 0.05)\<bar> > binary64 0.05
   \<and> \<bar>1 - binary64 0.05\<bar> / max (binary64 0.05) 0.01 > (0.10 :: real)
   \<and> \<bar>1 - binary64 0.05\<bar> > (0.05 :: real)
   \<and> flashTimestamps (fst (analyzeFrame roundedPow (Captured whiteFrame) 5000
                             (warmedUp dimFrame [] [] False 21))) = []
   \<and> totalFlashes (fst (analyzeFrame roundedPow (Captured whiteFrame) 5000
                          (warmedUp dimFrame [] [] False 21))) = 0"
proof -
  have c: "compares roundedPow whiteFrame (warmedUp dimFrame [] [] False 21)"
    by (simp add: compares_def warmedUp_def playing_def frame_metrics skipFrames_def
        WARMUP_FRAMES_def darkFrameGuard_Num binary64_simps)
  have n: "binary64 0.05 = 3602879701896397 / 72057594037927936"
    "binary64 0.01 = 5764607523034235 / 576460752303423488"
    "binary64 0.1 = 3602879701896397 / 36028797018963968"
    by (simp_all add: binary64_simps)
  have 1: "flashTimestamps (fst (analyzeFrame roundedPow (Captured whiteFrame) 5000
      (warmedUp dimFrame [] [] False 21))) = []"
    by (simp add: compares_fields [OF c])
       (simp add: warmedUp_def frame_metrics generalFlashCondition_Num binary64_simps)
  have 2: "totalFlashes (fst (analyzeFrame roundedPow (Captured whiteFrame) 5000
      (warmedUp dimFrame [] [] False 21))) = 0"
    by (simp add: compares_fields [OF c])
       (simp add: warmedUp_def frame_metrics generalFlashCondition_Num binary64_simps)
  have 3: "prevLuminance (warmedUp dimFrame [] [] False 21) = Some (Num (binary64 0.05))"
    by (simp add: warmedUp_def frame_metrics binary64_simps)
  have 4: "\<not> darkFrameGuard (Num 1) (Some (Num (binary64 0.05)))"
    by (simp add: darkFrameGuard_Num binary64_simps)
  have 5: "binary64 (\<bar>binary64 (1 - binary64 0.05)\<bar> / max (binary64 0.05) (binary64 0.01))
      > binary64 0.1"
    "\<bar>binary64 (1 - binary64 0.05)\<bar> > binary64 0.05"
    "\<bar>1 - binary64 0.05\<bar> / max (binary64 0.05) 0.01 > (0.10 :: real)"
    "\<bar>1 - binary64 0.05\<bar> > (0.05 :: real)"
    by (simp_all add: binary64_simps)
  from 1 2 3 4 5 luminance_whiteFrame show ?thesis
    by (simp only: simp_thms)
qed




text \<open>
  C3. In a session in which neither \<open>start\<close> nor \<open>resetWarning\<close> is called, whatever else
  happens (frames of any content, \<open>stop\<close>, \<open>resetDetectionState\<close>, the video being played or
  paused), at most one warning is dispatched; and if the latch \<open>warningShown\<close> is set at the
  beginning, none is dispatched and the latch stays set.
\<close>

theorem one_warning_per_latch_cycle:
  assumes "\<forall>e\<in>set es. \<not> clearsLatch e"
  shows "length (snd (run pow es s)) \<le> 1
         \<and> (warningShown s \<longrightarrow> snd (run pow es s) = [] \<and> warningShown (fst (run pow es s)))"
  using assms
proof (induction es arbitrary: s)
  case Nil
  then show ?case by simp
next
  case (Cons e es)
  from Cons.prems have e: "\<not> clearsLatch e" and es: "\<forall>e\<in>set es. \<not> clearsLatch e"
    by simp_all
  show ?case
  proof (cases "snd (step pow e s)")
    case None
    with Cons.IH [OF es, of "fst (step pow e s)"] step_keeps_latch [OF e, of s]
    show ?thesis by (simp add: split_beta)
  next
    case (Some w)
    from step_emits [OF e Some] have "\<not> warningShown s" "warningShown (fst (step pow e s))"
      by simp_all
    with run_latched [OF es, of "fst (step pow e s)"] Some show ?thesis
      by (simp add: split_beta)
  qed
qed

text \<open>
  C3, witness: a session of qualifying frames, a seek and a resumed video, with no call
  that clears the latch.
\<close>

theorem one_warning_per_latch_cycle_witness:
  "length (snd (run roundedPow [CallAnalyzeFrame (Captured redFrame) 5000, CallResetDetectionState,
                     VideoChanged playing, CallAnalyzeFrame (Captured whiteFrame) 5033,
                     CallAnalyzeFrame (Captured greyFrame) 5050]
                 (warmedUp greyFrame [] [4600, 4800] False 25))) \<le> 1"
  using one_warning_per_latch_cycle
    [where es = "[CallAnalyzeFrame (Captured redFrame) 5000, CallResetDetectionState,
          VideoChanged playing, CallAnalyzeFrame (Captured whiteFrame) 5033,
          CallAnalyzeFrame (Captured greyFrame) 5050]"
      and s = "warmedUp greyFrame [] [4600, 4800] False 25" and pow = roundedPow]
  by simp

text \<open>
  C4 (as the code behaves). \<open>analyzeFrame\<close> does not read the latch; what freezes the
  detector is the video being paused. While the video is paused or has ended, any number of
  \<open>analyzeFrame\<close> calls leave the whole detector state unchanged and dispatch nothing. A call
  that dispatches a warning sets the latch and pauses the video, so the calls that follow
  it are of that kind.
\<close>

theorem frozen_while_paused:
  "(paused (video s) \<or> ended (video s) \<longrightarrow>
      run pow (frameCalls frames) s = (s, []))
   \<and> (snd (analyzeFrame pow cap now s) \<noteq> None \<longrightarrow>
        warningShown (fst (analyzeFrame pow cap now s))
        \<and> paused (video (fst (analyzeFrame pow cap now s)))
        \<and> run pow (frameCalls frames) (fst (analyzeFrame pow cap now s))
            = (fst (analyzeFrame pow cap now s), []))"
proof (intro conjI impI)
  assume "paused (video s) \<or> ended (video s)"
  then show "run pow (frameCalls frames) s = (s, [])"
    by (rule run_not_playing)
next
  assume "snd (analyzeFrame pow cap now s) \<noteq> None"
  then obtain w where w: "snd (analyzeFrame pow cap now s) = Some w" by auto
  show "warningShown (fst (analyzeFrame pow cap now s))"
    using w by (rule analyzeFrame_emits)
  show p: "paused (video (fst (analyzeFrame pow cap now s)))"
    using w by (rule analyzeFrame_emits)
  show "run pow (frameCalls frames) (fst (analyzeFrame pow cap now s))
      = (fst (analyzeFrame pow cap now s), [])"
    using p by (simp add: run_not_playing)
qed

text \<open>
  C4, witness: the state after the red warning above, and a state whose video was paused
  by the user.
\<close>

theorem frozen_while_paused_witness:
  "run roundedPow (frameCalls [(Captured whiteFrame, 5033), (Captured greyFrame, 5066)])
       (fst (analyzeFrame roundedPow (Captured redFrame) 5000 (warmedUp greyFrame [] [4600, 4800] False 25)))
     = (fst (analyzeFrame roundedPow (Captured redFrame) 5000 (warmedUp greyFrame [] [4600, 4800] False 25)), [])
   \<and> run roundedPow (frameCalls [(Captured whiteFrame, 5033)])
        ((warmedUp greyFrame [] [] False 21)\<lparr> video := \<lparr> paused = True, ended = False, currentTime = 3 \<rparr> \<rparr>)
     = ((warmedUp greyFrame [] [] False 21)\<lparr> video := \<lparr> paused = True, ended = False, currentTime = 3 \<rparr> \<rparr>, [])"
  using frozen_while_paused
      [where s = "warmedUp greyFrame [] [4600, 4800] False 25" and pow = roundedPow
        and frames = "[(Captured whiteFrame, 5033), (Captured greyFrame, 5066)]"
        and cap = "Captured redFrame" and now = 5000]
    frozen_while_paused
      [where s = "(warmedUp greyFrame [] [] False 21)\<lparr> video := \<lparr> paused = True, ended = False, currentTime = 3 \<rparr> \<rparr>"
        and pow = roundedPow and frames = "[(Captured whiteFrame, 5033)]"
        and cap = "Captured redFrame" and now = 5000]
    red_warning_example
  by simp

text \<open>
  C4 (as stated) fails: with the latch set and the video playing again, a frame that
  differs from the previous one is recorded: the general window, \<open>totalFlashes\<close>,
  \<open>maxFlashesPerSecond\<close> and \<open>prevLuminance\<close> all change, and no warning is dispatched.
\<close>

theorem latch_does_not_freeze_counterexample:
  "warningShown (warmedUp whiteFrame [1000, 1100, 1200] [] True 27)
   \<and> analyzeFrame roundedPow (Captured greyFrame) 1300 (warmedUp whiteFrame [1000, 1100, 1200] [] True 27)
       = (warmedUp greyFrame [1000, 1100, 1200, 1300] [] True 28, None)
   \<and> flashTimestamps (warmedUp greyFrame [1000, 1100, 1200, 1300] [] True 28)
       \<noteq> flashTimestamps (warmedUp whiteFrame [1000, 1100, 1200] [] True 27)
   \<and> totalFlashes (warmedUp greyFrame [1000, 1100, 1200, 1300] [] True 28)
       \<noteq> totalFlashes (warmedUp whiteFrame [1000, 1100, 1200] [] True 27)
   \<and> maxFlashesPerSecond (warmedUp greyFrame [1000, 1100, 1200, 1300] [] True 28)
       \<noteq> maxFlashesPerSecond (warmedUp whiteFrame [1000, 1100, 1200] [] True 27)
   \<and> prevLuminance (warmedUp greyFrame [1000, 1100, 1200, 1300] [] True 28)
       \<noteq> prevLuminance (warmedUp whiteFrame [1000, 1100, 1200] [] True 27)"
  by (simp add: session_simps)

text \<open>
  C5 (what the code does). On a playing video every call increments the call counter, and
  the call is analysed if and only if the new value is a multiple of \<open>skipFrames = 2\<close>
  (\<open>stride_parity\<close>). Of the first three calls on a new detector the second is analysed and
  the third is filtered out: it changes nothing but the call counter.
\<close>

theorem second_call_analysed_third_skipped:
  "run roundedPow [CallAnalyzeFrame (Captured whiteFrame) 16] (constructor playing)
     = ((constructor playing)\<lparr> frameCount := 1 \<rparr>, [])
   \<and> run roundedPow [CallAnalyzeFrame (Captured whiteFrame) 16, CallAnalyzeFrame (Captured whiteFrame) 33]
        (constructor playing)
     = ((constructor playing)\<lparr> frameCount := 2, analyzedFrameCount := 1,
           prevLuminance := Some (Num 1), prevRedSaturation := Some (Num 0) \<rparr>, [])
   \<and> run roundedPow [CallAnalyzeFrame (Captured whiteFrame) 16, CallAnalyzeFrame (Captured whiteFrame) 33,
           CallAnalyzeFrame (Captured greyFrame) 50]
        (constructor playing)
     = ((constructor playing)\<lparr> frameCount := 3, analyzedFrameCount := 1,
           prevLuminance := Some (Num 1), prevRedSaturation := Some (Num 0) \<rparr>, [])"
  by (simp add: constructor_def playing_def analyzeFrame_skipped analyzeFrame_warmup
      skipFrames_def WARMUP_FRAMES_def frame_metrics)

text \<open>
  C6 (as the code behaves). After a call of \<open>analyzeFrame\<close> that reaches the comparison with
  the previous frame, every timestamp \<open>t\<close> in the general and in the red window satisfies
  \<open>now - t \<le> 1000\<close>. Every other call (video not playing, call skipped by the stride,
  capture failed, warmup, dark frame, no previous luminance) returns before the pruning and
  leaves both windows exactly as they were.
\<close>

theorem windows_pruned_when_compared:
  "(reachesComparison pow cap s \<longrightarrow>
      (\<forall>t \<in> set (flashTimestamps (fst (analyzeFrame pow cap now s)))
            \<union> set (redFlashTimestamps (fst (analyzeFrame pow cap now s))).
         now - t \<le> DETECTION_WINDOW))
   \<and> (\<not> reachesComparison pow cap s \<longrightarrow>
        flashTimestamps (fst (analyzeFrame pow cap now s)) = flashTimestamps s
        \<and> redFlashTimestamps (fst (analyzeFrame pow cap now s)) = redFlashTimestamps s)"
proof (cases cap)
  case CaptureError
  then show ?thesis
    by (simp add: reachesComparison_def captureError_unchanged)
next
  case (Captured img)
  show ?thesis
  proof (cases "compares pow img s")
    case True
    then show ?thesis
      by (auto simp add: Captured reachesComparison_def compares_fields)
  next
    case False
    then show ?thesis
      by (simp add: Captured reachesComparison_def not_compares_unchanged)
  qed
qed

text \<open>
  C6, witness: a frame compared at time 5000 prunes the timestamp 1000 from both windows;
  a call skipped by the stride leaves it.
\<close>

theorem windows_pruned_when_compared_witness:
  "1000 \<notin> set (flashTimestamps (fst (analyzeFrame roundedPow (Captured greyFrame) 5000
                                       (warmedUp whiteFrame [1000] [1000] False 23))))
   \<and> 1000 \<notin> set (redFlashTimestamps (fst (analyzeFrame roundedPow (Captured greyFrame) 5000
                                       (warmedUp whiteFrame [1000] [1000] False 23))))
   \<and> flashTimestamps (fst (analyzeFrame roundedPow (Captured greyFrame) 5000
                             (warmedUp whiteFrame [1000] [1000] False 22))) = [1000]
   \<and> redFlashTimestamps (fst (analyzeFrame roundedPow (Captured greyFrame) 5000
                             (warmedUp whiteFrame [1000] [1000] False 22))) = [1000]"
proof -
  let ?s = "warmedUp whiteFrame [1000] [1000] False 23"
  let ?t = "warmedUp whiteFrame [1000] [1000] False 22"
  have a: "reachesComparison roundedPow (Captured greyFrame) ?s"
    by (simp add: reachesComparison_def compares_def warmedUp_def playing_def frame_metrics
        skipFrames_def WARMUP_FRAMES_def darkFrameGuard_Num binary64_simps)
  have b: "\<not> reachesComparison roundedPow (Captured greyFrame) ?t"
    by (simp add: reachesComparison_def compares_def warmedUp_def playing_def skipFrames_def)
  from windows_pruned_when_compared [where cap = "Captured greyFrame" and s = ?s and now = 5000
      and pow = roundedPow] a
  have "\<forall>t \<in> set (flashTimestamps (fst (analyzeFrame roundedPow (Captured greyFrame) 5000 ?s)))
            \<union> set (redFlashTimestamps (fst (analyzeFrame roundedPow (Captured greyFrame) 5000 ?s))).
          5000 - t \<le> DETECTION_WINDOW"
    by blast
  then have "1000 \<notin> set (flashTimestamps (fst (analyzeFrame roundedPow (Captured greyFrame) 5000 ?s)))
      \<and> 1000 \<notin> set (redFlashTimestamps (fst (analyzeFrame roundedPow (Captured greyFrame) 5000 ?s)))"
    by (auto simp add: DETECTION_WINDOW_def dest!: bspec [where x = 1000])
  moreover from windows_pruned_when_compared [where cap = "Captured greyFrame" and s = ?t
      and now = 5000 and pow = roundedPow] b
  have "flashTimestamps (fst (analyzeFrame roundedPow (Captured greyFrame) 5000 ?t)) = flashTimestamps ?t
      \<and> redFlashTimestamps (fst (analyzeFrame roundedPow (Captured greyFrame) 5000 ?t)) = redFlashTimestamps ?t"
    by blast
  ultimately show ?thesis
    by (simp add: warmedUp_def)
qed

text \<open>
  C6 (as stated) fails: a dark frame analysed at time 5000, and a call skipped by the stride
  at time 5000, both leave the timestamp 1000 in both windows, and \<open>5000 - 1000 > 1000\<close>.
\<close>

theorem window_not_pruned_counterexample:
  "analyzeFrame roundedPow (Captured blackFrame) 5000 (warmedUp whiteFrame [1000] [1000] False 23)
     = (warmedUp blackFrame [1000] [1000] False 24, None)
   \<and> flashTimestamps (warmedUp blackFrame [1000] [1000] False 24) = [1000]
   \<and> redFlashTimestamps (warmedUp blackFrame [1000] [1000] False 24) = [1000]
   \<and> analyzeFrame roundedPow (Captured greyFrame) 5000 (warmedUp whiteFrame [1000] [1000] False 22)
     = (warmedUp whiteFrame [1000] [1000] False 23, None)
   \<and> flashTimestamps (warmedUp whiteFrame [1000] [1000] False 23) = [1000]
   \<and> redFlashTimestamps (warmedUp whiteFrame [1000] [1000] False 23) = [1000]
   \<and> \<not> (5000 - 1000 \<le> DETECTION_WINDOW)"
  by (simp add: session_simps)

text \<open>
  C7 (as the code behaves). After \<open>resetDetectionState\<close>, as long as at most ten frames
  have been analysed, whatever their content, no warning has been dispatched, both windows
  are still empty and \<open>totalFlashes\<close> is unchanged; and \<open>analyzedFrameCount\<close> is the number
  of frames analysed since the reset. Each analysed frame that finds the counter below ten
  only increments the two counters and stores its metrics as the previous ones. The frame
  analysed when the counter is ten, the eleventh, is classified against the stored metrics
  of the tenth. The same holds after a \<open>start\<close> that finds the detector not analysing: it
  resets the detection state and makes the first call of \<open>analyzeFrame\<close> itself. A \<open>start\<close>
  that finds the detector analysing returns at once and changes nothing.
\<close>

theorem warmup_records_nothing:
  "(analysedFrames pow (frameCalls frames) (resetDetectionState s) \<le> WARMUP_FRAMES \<longrightarrow>
      snd (run pow (frameCalls frames) (resetDetectionState s)) = []
      \<and> flashTimestamps (fst (run pow (frameCalls frames) (resetDetectionState s))) = []
      \<and> redFlashTimestamps (fst (run pow (frameCalls frames) (resetDetectionState s))) = []
      \<and> totalFlashes (fst (run pow (frameCalls frames) (resetDetectionState s)))
          = totalFlashes s)
   \<and> analyzedFrameCount (fst (run pow (frameCalls frames) (resetDetectionState s)))
       = analysedFrames pow (frameCalls frames) (resetDetectionState s)
   \<and> (\<not> paused (video s) \<and> \<not> ended (video s) \<and> (frameCount s + 1) mod skipFrames = 0
        \<and> analyzedFrameCount s < WARMUP_FRAMES \<longrightarrow>
        analyzeFrame pow (Captured img) now s =
          (s\<lparr> frameCount := frameCount s + 1, analyzedFrameCount := analyzedFrameCount s + 1,
              prevLuminance := Some (calculateLuminance pow img),
              prevRedSaturation := Some (calculateRedSaturation img) \<rparr>, None))
   \<and> (\<not> paused (video s) \<and> \<not> ended (video s) \<and> (frameCount s + 1) mod skipFrames = 0
        \<and> analyzedFrameCount s = WARMUP_FRAMES \<and> prevLuminance s = Some previous
        \<and> \<not> darkFrameGuard (calculateLuminance pow img) (Some previous) \<longrightarrow>
        flashTimestamps (fst (analyzeFrame pow (Captured img) now s)) =
          filter (\<lambda>t. now - t \<le> DETECTION_WINDOW)
            (flashTimestamps s
               @ (if generalFlashCondition (calculateLuminance pow img) previous
                  then [now] else []))
        \<and> redFlashTimestamps (fst (analyzeFrame pow (Captured img) now s)) =
          filter (\<lambda>t. now - t \<le> DETECTION_WINDOW)
            (redFlashTimestamps s
               @ (if redFlashCondition (calculateRedSaturation img) (prevRedSaturation s)
                       (calculateLuminance pow img) previous
                  then [now] else [])))
   \<and> (\<not> isAnalyzing s
        \<and> analysedFrames pow (CallStart cap now # frameCalls frames) s \<le> WARMUP_FRAMES \<longrightarrow>
        snd (run pow (CallStart cap now # frameCalls frames) s) = []
        \<and> flashTimestamps (fst (run pow (CallStart cap now # frameCalls frames) s)) = []
        \<and> redFlashTimestamps (fst (run pow (CallStart cap now # frameCalls frames) s)) = []
        \<and> totalFlashes (fst (run pow (CallStart cap now # frameCalls frames) s)) = 0)
   \<and> (\<not> isAnalyzing s \<longrightarrow>
        analyzedFrameCount (fst (run pow (CallStart cap now # frameCalls frames) s))
          = analysedFrames pow (CallStart cap now # frameCalls frames) s)
   \<and> (isAnalyzing s \<longrightarrow> start pow cap now s = (s, None))"
proof (intro conjI impI)
  assume a: "\<not> isAnalyzing s
      \<and> analysedFrames pow (CallStart cap now # frameCalls frames) s \<le> WARMUP_FRAMES"
  then have n: "\<not> isAnalyzing s" by simp
  from a have "analyzedFrameCount (fst (run pow (CallStart cap now # frameCalls frames) s))
      \<le> WARMUP_FRAMES"
    by (simp only: run_start_counts [OF n])
  with a have "snd (run pow (CallStart cap now # frameCalls frames) s) = []
     \<and> flashTimestamps (fst (run pow (CallStart cap now # frameCalls frames) s)) = []
     \<and> redFlashTimestamps (fst (run pow (CallStart cap now # frameCalls frames) s)) = []
     \<and> totalFlashes (fst (run pow (CallStart cap now # frameCalls frames) s)) = 0"
    by (intro run_start_in_warmup) simp_all
  then show "snd (run pow (CallStart cap now # frameCalls frames) s) = []"
    and "flashTimestamps (fst (run pow (CallStart cap now # frameCalls frames) s)) = []"
    and "redFlashTimestamps (fst (run pow (CallStart cap now # frameCalls frames) s)) = []"
    and "totalFlashes (fst (run pow (CallStart cap now # frameCalls frames) s)) = 0"
    by simp_all
next
  assume "\<not> isAnalyzing s"
  then show "analyzedFrameCount (fst (run pow (CallStart cap now # frameCalls frames) s))
      = analysedFrames pow (CallStart cap now # frameCalls frames) s"
    by (rule run_start_counts)
next
  assume "isAnalyzing s"
  then show "start pow cap now s = (s, None)"
    by (simp add: start_def)
next
  show c: "analyzedFrameCount (fst (run pow (frameCalls frames) (resetDetectionState s)))
      = analysedFrames pow (frameCalls frames) (resetDetectionState s)"
    by (simp add: run_frames_counts) (simp add: resetDetectionState_def)
  assume "analysedFrames pow (frameCalls frames) (resetDetectionState s) \<le> WARMUP_FRAMES"
  then have "analyzedFrameCount (fst (run pow (frameCalls frames) (resetDetectionState s)))
      \<le> WARMUP_FRAMES"
    by (simp only: c)
  from run_in_warmup [OF this]
  show "snd (run pow (frameCalls frames) (resetDetectionState s)) = []"
    and "flashTimestamps (fst (run pow (frameCalls frames) (resetDetectionState s))) = []"
    and "redFlashTimestamps (fst (run pow (frameCalls frames) (resetDetectionState s))) = []"
    and "totalFlashes (fst (run pow (frameCalls frames) (resetDetectionState s)))
      = totalFlashes s"
    by (simp_all add: resetDetectionState_def)
next
  assume "\<not> paused (video s) \<and> \<not> ended (video s) \<and> (frameCount s + 1) mod skipFrames = 0
      \<and> analyzedFrameCount s < WARMUP_FRAMES"
  then show "analyzeFrame pow (Captured img) now s =
      (s\<lparr> frameCount := frameCount s + 1, analyzedFrameCount := analyzedFrameCount s + 1,
          prevLuminance := Some (calculateLuminance pow img),
          prevRedSaturation := Some (calculateRedSaturation img) \<rparr>, None)"
    by (simp add: analyzeFrame_warmup)
next
  assume a: "\<not> paused (video s) \<and> \<not> ended (video s) \<and> (frameCount s + 1) mod skipFrames = 0
      \<and> analyzedFrameCount s = WARMUP_FRAMES \<and> prevLuminance s = Some previous
      \<and> \<not> darkFrameGuard (calculateLuminance pow img) (Some previous)"
  then have c: "compares pow img s"
    by (simp add: compares_def)
  from a show "flashTimestamps (fst (analyzeFrame pow (Captured img) now s)) =
      filter (\<lambda>t. now - t \<le> DETECTION_WINDOW)
        (flashTimestamps s
           @ (if generalFlashCondition (calculateLuminance pow img) previous
              then [now] else []))"
    by (simp add: compares_fields [OF c])
  from a show "redFlashTimestamps (fst (analyzeFrame pow (Captured img) now s)) =
      filter (\<lambda>t. now - t \<le> DETECTION_WINDOW)
        (redFlashTimestamps s
           @ (if redFlashCondition (calculateRedSaturation img) (prevRedSaturation s)
                   (calculateLuminance pow img) previous
              then [now] else []))"
    by (simp add: compares_fields [OF c])
qed

text \<open>
  C7, witness: two calls after a reset (one analysed, one skipped), an analysed warmup
  frame, the eleventh analysed frame, which is recorded as a general flash, \<open>start\<close> on
  a new detector followed by one call, and \<open>start\<close> on a detector that is analysing.
\<close>

theorem warmup_records_nothing_witness:
  "snd (run roundedPow (frameCalls [(Captured whiteFrame, 16), (Captured greyFrame, 33)])
         (resetDetectionState (warmedUp greyFrame [] [4600, 4800] False 25))) = []
   \<and> flashTimestamps (fst (run roundedPow
         (frameCalls [(Captured whiteFrame, 16), (Captured greyFrame, 33)])
         (resetDetectionState (warmedUp greyFrame [] [4600, 4800] False 25)))) = []
   \<and> redFlashTimestamps (fst (run roundedPow
         (frameCalls [(Captured whiteFrame, 16), (Captured greyFrame, 33)])
         (resetDetectionState (warmedUp greyFrame [] [4600, 4800] False 25)))) = []
   \<and> analyzedFrameCount (fst (run roundedPow
         (frameCalls [(Captured whiteFrame, 16), (Captured greyFrame, 33)])
         (resetDetectionState (warmedUp greyFrame [] [4600, 4800] False 25)))) = 1
   \<and> analyzeFrame roundedPow (Captured whiteFrame) 50 (warmedUp greyFrame [] [] False 5)
       = (warmedUp whiteFrame [] [] False 6, None)
   \<and> flashTimestamps (fst (analyzeFrame roundedPow (Captured whiteFrame) 5000
                             (warmedUp greyFrame [] [] False 21))) = [5000]
   \<and> snd (run roundedPow (CallStart (Captured whiteFrame) 0 # frameCalls [(Captured greyFrame, 16)])
            (constructor playing)) = []
   \<and> start roundedPow (Captured whiteFrame) 0 (warmedUp greyFrame [] [] False 21)
       = (warmedUp greyFrame [] [] False 21, None)"
proof -
  let ?s = "warmedUp greyFrame [] [4600, 4800] False 25"
  let ?frames = "[(Captured whiteFrame, 16), (Captured greyFrame, 33)]"
  let ?g = "3602879701896397 / 18014398509481984 :: real"
  have n: "analysedFrames roundedPow (frameCalls ?frames) (resetDetectionState ?s) = 1"
    by (simp add: frameCalls_def resetDetectionState_def warmedUp_def playing_def admitted_def
        analyzeFrame_skipped analyzeFrame_warmup skipFrames_def WARMUP_FRAMES_def)
  have a: "analysedFrames roundedPow (frameCalls ?frames) (resetDetectionState ?s)
      \<le> WARMUP_FRAMES"
    by (simp add: n WARMUP_FRAMES_def)
  have b: "\<not> paused (video (warmedUp greyFrame [] [] False 5))
      \<and> \<not> ended (video (warmedUp greyFrame [] [] False 5))
      \<and> (frameCount (warmedUp greyFrame [] [] False 5) + 1) mod skipFrames = 0
      \<and> analyzedFrameCount (warmedUp greyFrame [] [] False 5) < WARMUP_FRAMES"
    by (simp add: warmedUp_def playing_def skipFrames_def WARMUP_FRAMES_def)
  let ?u = "warmedUp greyFrame [] [] False 21"
  have c: "\<not> paused (video ?u) \<and> \<not> ended (video ?u)
      \<and> (frameCount ?u + 1) mod skipFrames = 0
      \<and> analyzedFrameCount ?u = WARMUP_FRAMES \<and> prevLuminance ?u = Some (Num ?g)
      \<and> \<not> darkFrameGuard (calculateLuminance roundedPow whiteFrame) (Some (Num ?g))"
    by (simp add: warmedUp_def playing_def skipFrames_def WARMUP_FRAMES_def frame_metrics
        darkFrameGuard_Num binary64_simps)
  have d: "\<not> isAnalyzing (constructor playing)
      \<and> analysedFrames roundedPow
          (CallStart (Captured whiteFrame) 0 # frameCalls [(Captured greyFrame, 16)])
          (constructor playing) \<le> WARMUP_FRAMES"
    by (simp add: frameCalls_def start_def resetDetectionState_def constructor_def playing_def
        admitted_def analyzeFrame_skipped analyzeFrame_warmup skipFrames_def WARMUP_FRAMES_def)
  have e: "isAnalyzing ?u"
    by (simp add: warmedUp_def)
  note T = warmup_records_nothing [where pow = roundedPow and frames = ?frames and s = ?s
      and img = whiteFrame and now = 0 and previous = NaN and cap = CaptureError]
  note T1 = T [THEN conjunct1, rule_format, OF a]
  note T1' = T [THEN conjunct2, THEN conjunct1]
  note T2 = warmup_records_nothing [where pow = roundedPow and frames = "[]"
      and s = "warmedUp greyFrame [] [] False 5" and img = whiteFrame and now = 50
      and previous = NaN and cap = CaptureError,
      THEN conjunct2, THEN conjunct2, THEN conjunct1, rule_format, OF b]
  note T3 = warmup_records_nothing [where pow = roundedPow and frames = "[]" and s = ?u
      and img = whiteFrame and now = 5000 and previous = "Num ?g" and cap = CaptureError,
      THEN conjunct2, THEN conjunct2, THEN conjunct2, THEN conjunct1, rule_format, OF c]
  note T4 = warmup_records_nothing [where pow = roundedPow
      and frames = "[(Captured greyFrame, 16)]" and s = "constructor playing"
      and img = whiteFrame and now = 0 and previous = NaN and cap = "Captured whiteFrame",
      THEN conjunct2, THEN conjunct2, THEN conjunct2, THEN conjunct2, THEN conjunct1,
      rule_format, OF d]
  note T5 = warmup_records_nothing [where pow = roundedPow and frames = "[]" and s = ?u
      and img = whiteFrame and now = 0 and previous = NaN and cap = "Captured whiteFrame",
      THEN conjunct2, THEN conjunct2, THEN conjunct2, THEN conjunct2, THEN conjunct2,
      THEN conjunct2, rule_format, OF e]
  have g: "generalFlashCondition (calculateLuminance roundedPow whiteFrame) (Num ?g)"
    by (simp add: frame_metrics generalFlashCondition_Num binary64_simps)
  from T1 T1' T2 T3 T4 T5 g n show ?thesis
    by (simp add: frame_metrics DETECTION_WINDOW_def warmedUp_def)
qed

text \<open>
  C7 (as stated) fails for a \<open>start\<close> on a detector that is already analysing: the call
  returns at once and resets nothing, so the frame analysed next, the first after the
  \<open>start\<close>, is classified. Here it is recorded as the third red flash within a second and a
  warning is dispatched. The state is the one reached by \<open>two_red_flashes_reachable\<close>.
\<close>

theorem start_while_analysing_counterexample:
  "isAnalyzing (warmedUp greyFrame [] [4600, 4800] False 25)
   \<and> analysedFrames roundedPow
        [CallStart (Captured redFrame) 4990, CallAnalyzeFrame (Captured redFrame) 5000]
        (warmedUp greyFrame [] [4600, 4800] False 25) = 1
   \<and> redFlashTimestamps
        (fst (run roundedPow
                [CallStart (Captured redFrame) 4990, CallAnalyzeFrame (Captured redFrame) 5000]
                (warmedUp greyFrame [] [4600, 4800] False 25))) = [4600, 4800, 5000]
   \<and> snd (run roundedPow
             [CallStart (Captured redFrame) 4990, CallAnalyzeFrame (Captured redFrame) 5000]
             (warmedUp greyFrame [] [4600, 4800] False 25)) =
       [\<lparr> detail_type = Red, detail_flashCount = 3, detail_maxFlashesPerSecond = 0,
          detail_totalFlashes = 0, detail_timestamp = 12 \<rparr>]"
proof -
  let ?s = "warmedUp greyFrame [] [4600, 4800] False 25"
  have s: "start roundedPow (Captured redFrame) 4990 ?s = (?s, None)"
    by (simp add: start_def warmedUp_def)
  have c: "compares roundedPow redFrame ?s"
    by (simp add: compares_def warmedUp_def playing_def frame_metrics skipFrames_def
        WARMUP_FRAMES_def darkFrameGuard_Num binary64_simps)
  have r: "redFlashTimestamps (fst (analyzeFrame roundedPow (Captured redFrame) 5000 ?s))
      = [4600, 4800, 5000]"
    by (simp add: compares_fields [OF c])
       (simp add: warmedUp_def frame_metrics redFlashCondition_Num DETECTION_WINDOW_def
          binary64_simps)
  have a: "admitted (Captured redFrame) ?s" "isAnalyzing ?s"
    by (simp_all add: admitted_def warmedUp_def playing_def skipFrames_def)
  show ?thesis
    using a by (simp add: s r red_warning_example split_beta)
qed

text \<open>
  C8 (as the code behaves). For an empty pixel buffer the loops do not run and both
  metric functions divide \<open>0\<close> by \<open>0\<close>: the result is \<open>NaN\<close>, not \<open>0\<close>. For every non-empty
  buffer the divisor is positive and both results are finite.
\<close>

theorem metrics_empty_NaN_nonempty_finite:
  "(data = [] \<longrightarrow> calculateLuminance pow data = NaN \<and> calculateRedSaturation data = NaN)
   \<and> (data \<noteq> [] \<longrightarrow> isFinite (calculateLuminance pow data) \<and> isFinite (calculateRedSaturation data))"
  by (cases data) (simp_all add: calculateLuminance_def calculateRedSaturation_def)

text \<open>C8, witness: the empty buffer and a buffer of one white pixel.\<close>

theorem metrics_empty_NaN_nonempty_finite_witness:
  "calculateLuminance roundedPow [] = NaN \<and> calculateRedSaturation [] = NaN
   \<and> isFinite (calculateLuminance roundedPow [\<lparr>red = 255, green = 255, blue = 255, alpha = 255\<rparr>])
   \<and> isFinite (calculateRedSaturation [\<lparr>red = 255, green = 255, blue = 255, alpha = 255\<rparr>])"
  using metrics_empty_NaN_nonempty_finite [where data = "[]" and pow = roundedPow]
    metrics_empty_NaN_nonempty_finite
      [where data = "[\<lparr>red = 255, green = 255, blue = 255, alpha = 255\<rparr>]" and pow = roundedPow]
  by simp

text \<open>
  C8 (as stated) fails: on the empty frame \<open>calculateLuminance\<close> does not return \<open>0\<close>,
  whatever \<open>Math.pow\<close> computes, and neither result is finite.
\<close>

theorem empty_frame_counterexample:
  "\<forall>pow. calculateLuminance pow [] \<noteq> Num 0 \<and> calculateRedSaturation [] \<noteq> Num 0
     \<and> \<not> isFinite (calculateLuminance pow []) \<and> \<not> isFinite (calculateRedSaturation [])"
  by (simp add: calculateLuminance_def calculateRedSaturation_def)

text \<open>
  C9. \<open>resetDetectionState\<close> is idempotent: on every detector state, applying it twice gives
  exactly the state that applying it once gives, and that state has the previous metrics
  cleared, both timestamp windows empty and \<open>analyzedFrameCount\<close> zero.
\<close>

theorem resetDetectionState_idempotent:
  "resetDetectionState (resetDetectionState s) = resetDetectionState s
   \<and> prevLuminance (resetDetectionState s) = None
   \<and> prevRedSaturation (resetDetectionState s) = None
   \<and> flashTimestamps (resetDetectionState s) = []
   \<and> redFlashTimestamps (resetDetectionState s) = []
   \<and> analyzedFrameCount (resetDetectionState s) = 0"
  by (simp add: resetDetectionState_def)

text \<open>
  C10. A call of \<open>analyzeFrame\<close> changes \<open>totalFlashes\<close> only by incrementing it together with
  appending the timestamp to the general window; appending to the red window never changes
  it. The \<open>totalFlashes\<close> carried by a warning is that counter, so it excludes every red
  event: in the example three red flashes within a second give a warning of type \<open>Red\<close>
  with \<open>totalFlashes = 0\<close>.
\<close>

theorem totalFlashes_counts_general_only:
  "(totalFlashes (fst (analyzeFrame pow cap now s)) \<noteq> totalFlashes s \<longrightarrow>
      totalFlashes (fst (analyzeFrame pow cap now s)) = totalFlashes s + 1
      \<and> flashTimestamps (fst (analyzeFrame pow cap now s)) =
          filter (\<lambda>t. now - t \<le> DETECTION_WINDOW) (flashTimestamps s) @ [now])
   \<and> (\<forall>w. snd (analyzeFrame pow cap now s) = Some w \<longrightarrow>
          detail_totalFlashes w = totalFlashes (fst (analyzeFrame pow cap now s)))
   \<and> snd (analyzeFrame roundedPow (Captured redFrame) 5000 (warmedUp greyFrame [] [4600, 4800] False 25)) =
       Some \<lparr> detail_type = Red, detail_flashCount = 3, detail_maxFlashesPerSecond = 0,
              detail_totalFlashes = 0, detail_timestamp = 12 \<rparr>
   \<and> redFlashTimestamps
       (fst (analyzeFrame roundedPow (Captured redFrame) 5000 (warmedUp greyFrame [] [4600, 4800] False 25)))
       = [4600, 4800, 5000]"
proof (intro conjI impI allI)
  assume d: "totalFlashes (fst (analyzeFrame pow cap now s)) \<noteq> totalFlashes s"
  then obtain img where cap: "cap = Captured img"
    by (cases cap) (simp_all add: captureError_unchanged)
  with d have c: "compares pow img s"
    by (cases "compares pow img s") (simp_all add: not_compares_unchanged)
  from d have g: "generalFlashCondition (calculateLuminance pow img) (the (prevLuminance s))"
    by (simp add: cap compares_fields [OF c] split: if_splits)
  show "totalFlashes (fst (analyzeFrame pow cap now s)) = totalFlashes s + 1"
    by (simp add: cap compares_fields [OF c] g)
  show "flashTimestamps (fst (analyzeFrame pow cap now s)) =
      filter (\<lambda>t. now - t \<le> DETECTION_WINDOW) (flashTimestamps s) @ [now]"
    by (simp add: cap compares_fields [OF c] g DETECTION_WINDOW_def)
next
  fix w
  assume "snd (analyzeFrame pow cap now s) = Some w"
  then show "detail_totalFlashes w = totalFlashes (fst (analyzeFrame pow cap now s))"
    by (rule analyzeFrame_emits)
next
  show "snd (analyzeFrame roundedPow (Captured redFrame) 5000 (warmedUp greyFrame [] [4600, 4800] False 25)) =
      Some \<lparr> detail_type = Red, detail_flashCount = 3, detail_maxFlashesPerSecond = 0,
             detail_totalFlashes = 0, detail_timestamp = 12 \<rparr>"
    by (rule red_warning_example)
next
  let ?s = "warmedUp greyFrame [] [4600, 4800] False 25"
  have c: "compares roundedPow redFrame ?s"
    by (simp add: compares_def warmedUp_def playing_def frame_metrics skipFrames_def
        WARMUP_FRAMES_def darkFrameGuard_Num binary64_simps)
  show "redFlashTimestamps (fst (analyzeFrame roundedPow (Captured redFrame) 5000 ?s)) = [4600, 4800, 5000]"
    by (simp add: compares_fields [OF c])
       (simp add: warmedUp_def frame_metrics redFlashCondition_Num binary64_simps DETECTION_WINDOW_def)
qed

text \<open>
  C10, witness: a general flash increments the counter; the red warning of the example
  leaves it at 0.
\<close>

theorem totalFlashes_counts_general_only_witness:
  "totalFlashes (fst (analyzeFrame roundedPow (Captured whiteFrame) 5000 (warmedUp greyFrame [] [] False 21))) = 1
   \<and> flashTimestamps (fst (analyzeFrame roundedPow (Captured whiteFrame) 5000 (warmedUp greyFrame [] [] False 21)))
       = [5000]
   \<and> totalFlashes
       (fst (analyzeFrame roundedPow (Captured redFrame) 5000 (warmedUp greyFrame [] [4600, 4800] False 25))) = 0"
proof -
  let ?u = "warmedUp greyFrame [] [] False 21"
  let ?s = "warmedUp greyFrame [] [4600, 4800] False 25"
  have c: "compares roundedPow whiteFrame ?u"
    by (simp add: compares_def warmedUp_def playing_def frame_metrics skipFrames_def
        WARMUP_FRAMES_def darkFrameGuard_Num binary64_simps)
  have t: "totalFlashes (fst (analyzeFrame roundedPow (Captured whiteFrame) 5000 ?u)) \<noteq> totalFlashes ?u"
    by (simp add: compares_fields [OF c]) (simp add: warmedUp_def frame_metrics generalFlashCondition_Num binary64_simps)
  note T = totalFlashes_counts_general_only [where cap = "Captured whiteFrame" and now = 5000
      and s = ?u and pow = roundedPow]
  note U = totalFlashes_counts_general_only [where cap = "Captured redFrame" and now = 5000
      and s = ?s and pow = roundedPow]
  from T t have "totalFlashes (fst (analyzeFrame roundedPow (Captured whiteFrame) 5000 ?u)) = totalFlashes ?u + 1
      \<and> flashTimestamps (fst (analyzeFrame roundedPow (Captured whiteFrame) 5000 ?u)) =
          filter (\<lambda>t. 5000 - t \<le> DETECTION_WINDOW) (flashTimestamps ?u) @ [5000]"
    by blast
  moreover from U have "totalFlashes (fst (analyzeFrame roundedPow (Captured redFrame) 5000 ?s)) = 0"
    by auto
  ultimately show ?thesis
    by (simp add: warmedUp_def)
qed

end
